theory Spec2Isabelle
  imports Main "HOL-Library.Sublist" "HOL-Library.AList" "HOL-Library.Word"
begin

section \<open>Regular expressions of package logwatch\<close>

text \<open>
  The two patterns of \<^verbatim>\<open>watcher.go\<close> use literals, character classes, the dot, greedy
  \<^verbatim>\<open>+\<close> and \<^verbatim>\<open>*\<close> over a single character, capture groups, concatenation and the
  end-of-text anchor. Strings are byte lists. Go decodes the text as UTF-8, but every ASCII
  byte is a rune of its own (a multi-byte rune has no byte below 0x80), and the patterns
  mention only ASCII: a dot consuming one rune other than newline is a run of bytes other
  than 0x0A, so matching byte by byte finds the same matches.
\<close>

datatype atom = Chr char | Cls "(char \<times> char) list" | Dot

fun accepts :: "atom \<Rightarrow> char \<Rightarrow> bool" where
  "accepts (Chr c) x = (x = c)"
| "accepts (Cls rs) x =
     (\<exists>(lo, hi) \<in> set rs. (of_char lo :: nat) \<le> of_char x \<and> (of_char x :: nat) \<le> of_char hi)"
| "accepts Dot x = (x \<noteq> CHR 0x0A)"

datatype regex = One atom | Plus atom | Star atom | Cat regex regex | Grp regex | Eot

text \<open>
  \<open>plus_run a s\<close> lists the ways of consuming one or more characters accepted by \<open>a\<close> from
  the front of \<open>s\<close>, as (consumed, rest), longest first: the order in which a greedy
  backtracking search tries them.
\<close>

fun plus_run :: "atom \<Rightarrow> string \<Rightarrow> (string \<times> string) list" where
  "plus_run a [] = []"
| "plus_run a (c # cs) =
     (if accepts a c then map (\<lambda>(m, r). (c # m, r)) (plus_run a cs) @ [([c], cs)] else [])"

text \<open>
  \<open>rmatch r s\<close> lists every match of \<open>r\<close> at the front of \<open>s\<close> as (matched text, captured
  groups in the order of their opening parentheses, rest of the input), in the order a
  backtracking search finds them. Go's regexp returns the leftmost match and, among those,
  the one a backtracking search finds first: the head of this list.
\<close>

fun rmatch :: "regex \<Rightarrow> string \<Rightarrow> (string \<times> string list \<times> string) list" where
  "rmatch (One a) s =
     (case s of [] \<Rightarrow> [] | c # cs \<Rightarrow> if accepts a c then [([c], [], cs)] else [])"
| "rmatch (Plus a) s = map (\<lambda>(m, r). (m, [], r)) (plus_run a s)"
| "rmatch (Star a) s = map (\<lambda>(m, r). (m, [], r)) (plus_run a s @ [([], s)])"
| "rmatch (Cat r1 r2) s =
     concat (map (\<lambda>(m1, g1, s1). map (\<lambda>(m2, g2, s2). (m1 @ m2, g1 @ g2, s2)) (rmatch r2 s1))
                 (rmatch r1 s))"
| "rmatch (Grp r) s = map (\<lambda>(m, g, s'). (m, m # g, s')) (rmatch r s)"
| "rmatch Eot s = (if s = [] then [([], [], [])] else [])"

text \<open>
  \<^verbatim>\<open>Regexp.FindStringSubmatch\<close>: the match at the earliest start position, as the matched
  text followed by the captured groups; \<open>None\<close> is Go's nil.
\<close>

fun FindStringSubmatch :: "regex \<Rightarrow> string \<Rightarrow> string list option" where
  "FindStringSubmatch re [] =
     (case rmatch re [] of [] \<Rightarrow> None | (m, g, _) # _ \<Rightarrow> Some (m # g))"
| "FindStringSubmatch re (c # cs) =
     (case rmatch re (c # cs) of [] \<Rightarrow> FindStringSubmatch re cs | (m, g, _) # _ \<Rightarrow> Some (m # g))"

text \<open>\<^verbatim>\<open>[a-z0-9-]\<close> and \<^verbatim>\<open>[a-f0-9-]\<close>.\<close>

definition word_cls :: atom where
  "word_cls = Cls [(CHR ''a'', CHR ''z''), (CHR ''0'', CHR ''9''), (CHR ''-'', CHR ''-'')]"

definition hex_cls :: atom where
  "hex_cls = Cls [(CHR ''a'', CHR ''f''), (CHR ''0'', CHR ''9''), (CHR ''-'', CHR ''-'')]"

text \<open>\<^verbatim>\<open>/([a-z0-9-]+)_([a-z0-9-]+)_([a-f0-9-]+)/([a-z0-9-]+)/.*\.log\<close>\<close>

definition logFile :: regex where
  "logFile =
     Cat (One (Chr CHR ''/'')) (Cat (Grp (Plus word_cls)) (Cat (One (Chr CHR ''_''))
     (Cat (Grp (Plus word_cls)) (Cat (One (Chr CHR ''_'')) (Cat (Grp (Plus hex_cls))
     (Cat (One (Chr CHR ''/'')) (Cat (Grp (Plus word_cls)) (Cat (One (Chr CHR ''/''))
     (Cat (Star Dot) (Cat (One (Chr CHR ''.'')) (Cat (One (Chr CHR ''l''))
     (Cat (One (Chr CHR ''o'')) (One (Chr CHR ''g''))))))))))))))"

text \<open>\<^verbatim>\<open>/([a-z0-9-]+)_([a-z0-9-]+)_([a-f0-9-]+)$\<close>\<close>

definition logPodDir :: regex where
  "logPodDir =
     Cat (One (Chr CHR ''/'')) (Cat (Grp (Plus word_cls)) (Cat (One (Chr CHR ''_''))
     (Cat (Grp (Plus word_cls)) (Cat (One (Chr CHR ''_'')) (Cat (Grp (Plus hex_cls)) Eot)))))"

section \<open>Labels\<close>

record LogLabels =
  Namespace :: string
  Name :: string
  UUID :: string
  Container :: string

text \<open>
  \<^verbatim>\<open>LogLabels.Parse\<close> fills the receiver and returns ok; the model returns the labels when
  ok. A match of \<open>logFile\<close> always has the matched text and four groups.
\<close>

definition Parse :: "string \<Rightarrow> LogLabels option" where
  "Parse path =
     (case FindStringSubmatch logFile path of
        Some (m0 # m1 # m2 # m3 # m4 # _) \<Rightarrow>
          Some \<lparr>Namespace = m1, Name = m2, UUID = m3, Container = m4\<rparr>
      | _ \<Rightarrow> None)"

section \<open>The environment: errors, the file system, paths\<close>

datatype error = EOF | ErrNotExist | ErrPermission | ErrOther string

definition os_IsNotExist :: "error \<Rightarrow> bool" where
  "os_IsNotExist err = (err = ErrNotExist)"

text \<open>
  What one call of \<^verbatim>\<open>Update\<close> sees of the file system at a path: the result of
  \<^verbatim>\<open>os.Stat\<close> (an error, or the length in bytes) and the result of \<^verbatim>\<open>ioutil.ReadDir\<close> (an
  error, or the entries by name, each with what is seen at the joined path). A regular file
  has a length and a failing listing, a directory has both, a vanished path has neither.
\<close>

datatype fsnode = FsNode "error + nat" "error + (string \<times> fsnode) list"

text \<open>
  \<^verbatim>\<open>filepath.Join\<close> on Unix: the non-empty elements joined by the separator, then
  \<^verbatim>\<open>filepath.Clean\<close>, which drops empty and \<^verbatim>\<open>.\<close> elements, resolves \<^verbatim>\<open>..\<close> against
  the element before it, and keeps a leading separator.
\<close>

fun split_sep :: "string \<Rightarrow> string list" where
  "split_sep [] = [[]]"
| "split_sep (c # cs) =
     (if c = CHR ''/'' then [] # split_sep cs
      else (case split_sep cs of [] \<Rightarrow> [[c]] | x # xs \<Rightarrow> (c # x) # xs))"

fun clean_step :: "bool \<Rightarrow> string \<Rightarrow> string list \<Rightarrow> string list" where
  "clean_step rooted el out =
     (if el = [] \<or> el = ''.'' then out
      else if el = ''..'' then
        (case out of
           [] \<Rightarrow> if rooted then [] else [''..'']
         | last_el # below \<Rightarrow> if last_el = ''..'' then ''..'' # out else below)
      else el # out)"

fun join_sep :: "string list \<Rightarrow> string" where
  "join_sep [] = []"
| "join_sep [x] = x"
| "join_sep (x # y # ys) = x @ CHR ''/'' # join_sep (y # ys)"

definition filepath_Clean :: "string \<Rightarrow> string" where
  "filepath_Clean path =
     (if path = [] then ''.''
      else let rooted = (hd path = CHR ''/'');
               out = join_sep (rev (fold (clean_step rooted) (split_sep path) []))
           in if rooted then CHR ''/'' # out else if out = [] then ''.'' else out)"

definition filepath_Join :: "string \<Rightarrow> string \<Rightarrow> string" where
  "filepath_Join dir name =
     (if dir = [] then (if name = [] then [] else filepath_Clean name)
      else filepath_Clean (dir @ CHR ''/'' # name))"

text \<open>\<^verbatim>\<open>filepath.HasPrefix\<close> on Unix is \<^verbatim>\<open>strings.HasPrefix\<close>.\<close>

definition filepath_HasPrefix :: "string \<Rightarrow> string \<Rightarrow> bool" where
  "filepath_HasPrefix p pre = prefix pre p"

section \<open>The counter vector\<close>

text \<open>
  The vector maps the four label values to the value of their counter. Sizes and counter
  values are \<^verbatim>\<open>float64\<close> in the source and integers here. \<^verbatim>\<open>float64\<close> holds every
  integer below \<open>2 ^ 53\<close> exactly and rounds from there on, so the integers are the values
  of the source as long as the sizes and the counters stay below \<open>2 ^ 53\<close>; what is stated
  about exact amounts is stated under that bound (\<open>float64_exact\<close> below).

  \<^verbatim>\<open>GetMetricWithLabelValues\<close> fails when the number of values is not the number of label
  names (four); otherwise it returns the counter of the values, creating it at 0 when it is
  absent. \<^verbatim>\<open>Counter.Add\<close> panics on a negative argument (\<open>None\<close>).
  \<^verbatim>\<open>DeleteLabelValues\<close> removes the series.
\<close>

type_synonym CounterVec = "(string list \<times> int) list"

definition GetMetricWithLabelValues :: "CounterVec \<Rightarrow> string list \<Rightarrow> error + CounterVec \<times> int" where
  "GetMetricWithLabelValues ms lvs =
     (if length lvs \<noteq> 4 then Inl (ErrOther ''inconsistent label cardinality'')
      else (case map_of ms lvs of
              None \<Rightarrow> Inr (AList.update lvs 0 ms, 0)
            | Some v \<Rightarrow> Inr (ms, v)))"

definition Counter_Add :: "int \<Rightarrow> int \<Rightarrow> int option" where
  "Counter_Add v a = (if a < 0 then None else Some (v + a))"

definition DeleteLabelValues :: "CounterVec \<Rightarrow> string list \<Rightarrow> CounterVec" where
  "DeleteLabelValues ms lvs = AList.delete lvs ms"

section \<open>The watcher\<close>

datatype log_entry = LogError error string | LogInfo string int

text \<open>
  The fields \<^verbatim>\<open>metrics\<close> and \<^verbatim>\<open>sizes\<close> of \<^verbatim>\<open>Watcher\<close>, and what the calls have written
  to the logger so far.
\<close>

record Watcher =
  metrics :: CounterVec
  sizes :: "(string \<times> int) list"
  logged :: "log_entry list"

text \<open>
  \<^verbatim>\<open>Watcher.Update\<close>. The result is \<open>None\<close> when \<^verbatim>\<open>Counter.Add\<close> panics. The deferred
  function logs the error of \<^verbatim>\<open>os.Stat\<close> unless it is a does-not-exist error; the errors of
  \<^verbatim>\<open>GetMetricWithLabelValues\<close> and \<^verbatim>\<open>ioutil.ReadDir\<close> are bound to variables of inner scopes
  and are not logged.
\<close>

fun Update :: "string \<Rightarrow> fsnode \<Rightarrow> Watcher \<Rightarrow> Watcher option" where
  "Update path (FsNode st rd) w =
     (case Parse path of
        Some l \<Rightarrow>
          (case st of
             Inl err \<Rightarrow>
               Some (if os_IsNotExist err then w
                     else w\<lparr>logged := logged w @ [LogError err path]\<rparr>)
           | Inr n \<Rightarrow>
               (case GetMetricWithLabelValues (metrics w)
                       [Namespace l, Name l, UUID l, Container l] of
                  Inl _ \<Rightarrow> Some w
                | Inr (ms, counter) \<Rightarrow>
                    (let lastSize = (case map_of (sizes w) path of None \<Rightarrow> 0 | Some v \<Rightarrow> v);
                         size = int n;
                         add = (if size \<ge> lastSize then size - lastSize else size)
                     in (case Counter_Add counter add of
                           None \<Rightarrow> None
                         | Some v \<Rightarrow>
                             Some (w\<lparr>metrics :=
                                       AList.update [Namespace l, Name l, UUID l, Container l] v ms,
                                     sizes := AList.update path size (sizes w),
                                     logged := logged w @ [LogInfo path size]\<rparr>)))))
      | None \<Rightarrow>
          (case rd of
             Inr infos \<Rightarrow>
               fold (\<lambda>(name, child) r. Option.bind r (Update (filepath_Join path name) child))
                    infos (Some w)
           | Inl _ \<Rightarrow> Some w))"

text \<open>
  \<^verbatim>\<open>Watcher.Remove\<close>. The loop ranges over the keys of \<^verbatim>\<open>sizes\<close>; deleting the current key
  during the iteration is allowed in Go. \<open>Remove_key\<close> is the body of the loop for the key
  \<open>k\<close>.
\<close>

definition Remove_key :: "string \<Rightarrow> string \<Rightarrow> Watcher \<Rightarrow> Watcher" where
  "Remove_key path k w =
     (if filepath_HasPrefix k path then
        (let w1 = w\<lparr>sizes := AList.delete k (sizes w)\<rparr>
         in (case Parse k of
               Some l \<Rightarrow>
                 w1\<lparr>metrics := DeleteLabelValues (metrics w1)
                                 [Namespace l, Name l, UUID l, Container l]\<rparr>
             | None \<Rightarrow> w1))
      else w)"

definition Remove :: "string \<Rightarrow> Watcher \<Rightarrow> Watcher" where
  "Remove path w =
     (if FindStringSubmatch logPodDir path \<noteq> None then
        fold (Remove_key path) (map fst (sizes w)) w
      else w)"

text \<open>\<^verbatim>\<open>fsnotify.Op\<close> is a \<^verbatim>\<open>uint32\<close> bit set.\<close>

definition fsnotify_Create :: "32 word" where "fsnotify_Create = 1"
definition fsnotify_Write :: "32 word" where "fsnotify_Write = 2"
definition fsnotify_Remove :: "32 word" where "fsnotify_Remove = 4"
definition fsnotify_Rename :: "32 word" where "fsnotify_Rename = 8"
definition fsnotify_Chmod :: "32 word" where "fsnotify_Chmod = 16"

record Event =
  EvName :: string
  EvOp :: "32 word"

text \<open>
  \<^verbatim>\<open>Watcher.Watch\<close> runs over what the successive calls of \<^verbatim>\<open>Event()\<close> return, each with
  what the file system shows when the event is handled. \<^verbatim>\<open>Event()\<close> blocks when nothing is
  left, and the loop has not returned: \<open>Waiting\<close>.
\<close>

datatype outcome = Returned "error option" Watcher | Waiting Watcher | Panicked

fun Watch :: "((error + Event) \<times> fsnode) list \<Rightarrow> Watcher \<Rightarrow> outcome" where
  "Watch [] w = Waiting w"
| "Watch ((r, fs) # rest) w =
     (case r of
        Inl err \<Rightarrow> if err = EOF then Returned None w else Returned (Some err) w
      | Inr e \<Rightarrow>
          if EvOp e = fsnotify_Remove then Watch rest (Remove (EvName e) w)
          else (case Update (EvName e) fs w of
                  None \<Rightarrow> Panicked
                | Some w' \<Rightarrow> Watch rest w'))"

section \<open>Reading the state\<close>

text \<open>
  What \<^verbatim>\<open>w.sizes[path]\<close> reads (0 for an absent key), the value a scrape sees for a
  label combination (an absent series counts as 0), and the label values of a container in
  the order of the label names.
\<close>

definition last_size :: "Watcher \<Rightarrow> string \<Rightarrow> int" where
  "last_size w path = (case map_of (sizes w) path of None \<Rightarrow> 0 | Some v \<Rightarrow> v)"

definition counter_value :: "Watcher \<Rightarrow> string list \<Rightarrow> int" where
  "counter_value w lvs = (case map_of (metrics w) lvs of None \<Rightarrow> 0 | Some v \<Rightarrow> v)"

definition label_values :: "LogLabels \<Rightarrow> string list" where
  "label_values l = [Namespace l, Name l, UUID l, Container l]"

text \<open>
  The byte counts that \<^verbatim>\<open>float64\<close> holds exactly: on them the conversion from
  \<^verbatim>\<open>int64\<close>, the comparison, the subtraction and the addition of the source are those of
  the integers, as long as the result is such a count again.
\<close>

definition float64_exact :: "int \<Rightarrow> bool" where
  "float64_exact x = (0 \<le> x \<and> x < 2 ^ 53)"

text \<open>A sequence of \<^verbatim>\<open>Update\<close> calls, each with what the file system shows at its time.\<close>

fun UpdateAll :: "(string \<times> fsnode) list \<Rightarrow> Watcher \<Rightarrow> Watcher option" where
  "UpdateAll [] w = Some w"
| "UpdateAll ((path, fs) # rest) w =
     (case Update path fs w of None \<Rightarrow> None | Some w' \<Rightarrow> UpdateAll rest w')"

text \<open>Every series of \<open>w\<close> is still there in \<open>w'\<close>, with a value that is not smaller.\<close>

definition grows :: "Watcher \<Rightarrow> Watcher \<Rightarrow> bool" where
  "grows w w' = (\<forall>lvs v. map_of (metrics w) lvs = Some v \<longrightarrow>
                   (\<exists>v'. map_of (metrics w') lvs = Some v' \<and> v \<le> v'))"

text \<open>
  The routing of section 4.3 of the specification, to compare \<open>Watch\<close> with: an event
  whose op is Remove goes to \<open>Remove\<close>, every other event to \<open>Update\<close>; the events of a
  stream are handled in order.
\<close>

definition route :: "Event \<Rightarrow> fsnode \<Rightarrow> Watcher \<Rightarrow> Watcher option" where
  "route e fs w =
     (if EvOp e = fsnotify_Remove then Some (Remove (EvName e) w) else Update (EvName e) fs w)"

fun route_all :: "(Event \<times> fsnode) list \<Rightarrow> Watcher \<Rightarrow> Watcher option" where
  "route_all [] w = Some w"
| "route_all ((e, fs) # rest) w =
     (case route e fs w of None \<Rightarrow> None | Some w' \<Rightarrow> route_all rest w')"

section \<open>What the patterns accept\<close>

text \<open>
  \<open>yields re s g r\<close>: some match of \<open>re\<close> at the front of \<open>s\<close> captures the groups \<open>g\<close> and
  leaves \<open>r\<close>.
\<close>

definition yields :: "regex \<Rightarrow> string \<Rightarrow> string list \<Rightarrow> string \<Rightarrow> bool" where
  "yields re s g r = (\<exists>m. (m, g, r) \<in> set (rmatch re s))"

text \<open>The tail \<^verbatim>\<open>.*\.log\<close> of \<open>logFile\<close>, and the head that both patterns share.\<close>

definition rest_log :: regex where
  "rest_log = Cat (Star Dot) (Cat (One (Chr CHR ''.'')) (Cat (One (Chr CHR ''l''))
     (Cat (One (Chr CHR ''o'')) (One (Chr CHR ''g'')))))"

definition pod_then :: "regex \<Rightarrow> regex" where
  "pod_then re = Cat (One (Chr CHR ''/'')) (Cat (Grp (Plus word_cls)) (Cat (One (Chr CHR ''_''))
     (Cat (Grp (Plus word_cls)) (Cat (One (Chr CHR ''_'')) (Cat (Grp (Plus hex_cls)) re)))))"

text \<open>
  The shape of the paths that \<open>logFile\<close> is written for: labels whose characters are in
  the classes of the pattern, the directory \<^verbatim>\<open>/<namespace>_<name>_<uuid>/<container>/\<close> of
  a container, and a \<^verbatim>\<open>.log\<close> later on the same line. \<open>log_at s l\<close>: the string \<open>s\<close> begins
  with the directory of \<open>l\<close>, and a \<^verbatim>\<open>.log\<close> follows before any newline.
\<close>

definition wf_labels :: "LogLabels \<Rightarrow> bool" where
  "wf_labels l =
     (Namespace l \<noteq> [] \<and> list_all (accepts word_cls) (Namespace l) \<and>
      Name l \<noteq> [] \<and> list_all (accepts word_cls) (Name l) \<and>
      UUID l \<noteq> [] \<and> list_all (accepts hex_cls) (UUID l) \<and>
      Container l \<noteq> [] \<and> list_all (accepts word_cls) (Container l))"

definition container_dir :: "LogLabels \<Rightarrow> string" where
  "container_dir l =
     CHR ''/'' # Namespace l @ CHR ''_'' # Name l @ CHR ''_'' # UUID l @
     CHR ''/'' # Container l @ ''/''"

fun has_log :: "string \<Rightarrow> bool" where
  "has_log [] = False"
| "has_log (c # cs) = (prefix ''.log'' (c # cs) \<or> (c \<noteq> CHR 0x0A \<and> has_log cs))"

definition log_at :: "string \<Rightarrow> LogLabels \<Rightarrow> bool" where
  "log_at s l =
     (wf_labels l \<and> prefix (container_dir l) s \<and> has_log (drop (length (container_dir l)) s))"

section \<open>The symlink-aware watcher\<close>

text \<open>
  Modelled from the spec: the state of the watcher of package symnotify, of which only the
  tests are at hand, not the implementation. Section 4.1: a symlink is watched by
  registering its resolved target; here each registered target path has the path of its
  link and the identity of the file that was registered.
\<close>

record SymWatcher =
  targets :: "(string \<times> string \<times> nat) list"

text \<open>
  Modelled from the spec: the event translation of package symnotify (its implementation is
  missing), rule 2 of section 4.1. An event for a registered target is forwarded under the name of
  the link with its op, except when the link now resolves to a file of another identity:
  then the new target is registered and a Chmod event on the link is emitted. \<open>resolve\<close>
  gives the target path and the file identity a link resolves to now, \<open>None\<close> when the stat
  fails; the registration is then left alone. Events for other paths are forwarded as they
  are.
\<close>

definition translate ::
  "(string \<Rightarrow> (string \<times> nat) option) \<Rightarrow> Event \<Rightarrow> SymWatcher \<Rightarrow> SymWatcher \<times> Event list" where
  "translate resolve raw sw =
     (case map_of (targets sw) (EvName raw) of
        None \<Rightarrow> (sw, [raw])
      | Some (link, ident) \<Rightarrow>
          (case resolve link of
             None \<Rightarrow> (sw, [raw\<lparr>EvName := link\<rparr>])
           | Some (target', ident') \<Rightarrow>
               if ident' \<noteq> ident then
                 (sw\<lparr>targets := AList.update target' (link, ident')
                                   (AList.delete (EvName raw) (targets sw))\<rparr>,
                  [\<lparr>EvName = link, EvOp = fsnotify_Chmod\<rparr>])
               else (sw, [raw\<lparr>EvName := link\<rparr>])))"

declare Update.simps [simp del]

section \<open>Update on a log file\<close>

lemma Update_file:
  assumes "Parse path = Some l"
  shows "Update path (FsNode (Inr n) rd) w =
           Some (w\<lparr>metrics := AList.update (label_values l)
                     (counter_value w (label_values l) +
                        (if last_size w path \<le> int n then int n - last_size w path else int n))
                     (metrics w),
                   sizes := AList.update path (int n) (sizes w),
                   logged := logged w @ [LogInfo path (int n)]\<rparr>)"
  using assms
  by (auto simp: Update.simps GetMetricWithLabelValues_def Counter_Add_def label_values_def
        counter_value_def last_size_def Let_def update_conv' split: option.splits)

text \<open>
  C1. When the labels of \<open>path\<close> parse and the stat gives the length \<open>n\<close>, \<^verbatim>\<open>Update\<close>
  returns, the counter of the container has grown by \<open>n - lastSize\<close> when
  \<open>lastSize \<le> n\<close> and by \<open>n\<close> otherwise, where \<open>lastSize\<close> is the stored size of the path
  (0 when absent), the stored size of the path is \<open>n\<close>, and no other size and no other
  series has changed. This is stated for a stored size and a counter that \<^verbatim>\<open>float64\<close>
  holds exactly, the counter staying so when the whole length is added; the length, the
  amount added and the new counter are then exact too.
\<close>

theorem Update_accounts_size:
  assumes "Parse path = Some l"
    and "float64_exact (last_size w path)"
    and "float64_exact (counter_value w (label_values l))"
    and "float64_exact (counter_value w (label_values l) + int n)"
  shows "\<exists>w'. Update path (FsNode (Inr n) rd) w = Some w' \<and>
           map_of (metrics w') (label_values l) =
             Some (counter_value w (label_values l) +
                     (if last_size w path \<le> int n then int n - last_size w path else int n)) \<and>
           map_of (sizes w') path = Some (int n) \<and>
           (\<forall>k. k \<noteq> path \<longrightarrow> map_of (sizes w') k = map_of (sizes w) k) \<and>
           (\<forall>ks. ks \<noteq> label_values l \<longrightarrow> map_of (metrics w') ks = map_of (metrics w) ks) \<and>
           float64_exact (int n) \<and>
           float64_exact (if last_size w path \<le> int n then int n - last_size w path else int n) \<and>
           float64_exact (counter_value w' (label_values l))"
  using assms(2-4)
  by (auto simp: Update_file [OF assms(1)] update_conv' float64_exact_def counter_value_def)

theorem Update_accounts_size_witness:
  "Parse ''/var/log/pods/ns_pod_8cdb-f8bd/app/0.log'' =
     Some \<lparr>Namespace = ''ns'', Name = ''pod'', UUID = ''8cdb-f8bd'', Container = ''app''\<rparr> \<and>
   float64_exact 14 \<and> float64_exact 20 \<and> float64_exact (20 + int 6) \<and>
   (\<exists>w'. Update ''/var/log/pods/ns_pod_8cdb-f8bd/app/0.log''
            (FsNode (Inr 6) (Inl (ErrOther ''not a directory'')))
            \<lparr>metrics = [([''ns'', ''pod'', ''8cdb-f8bd'', ''app''], 20)],
             sizes = [(''/var/log/pods/ns_pod_8cdb-f8bd/app/0.log'', 14)], logged = []\<rparr> = Some w' \<and>
         map_of (metrics w') [''ns'', ''pod'', ''8cdb-f8bd'', ''app''] = Some 26 \<and>
         map_of (sizes w') ''/var/log/pods/ns_pod_8cdb-f8bd/app/0.log'' = Some 6)"
proof -
  have p: "Parse ''/var/log/pods/ns_pod_8cdb-f8bd/app/0.log'' =
     Some \<lparr>Namespace = ''ns'', Name = ''pod'', UUID = ''8cdb-f8bd'', Container = ''app''\<rparr>"
    by (simp add: Parse_def logFile_def word_cls_def hex_cls_def)
  have e: "float64_exact 14" "float64_exact 20" "float64_exact (20 + int 6)"
    by (simp_all add: float64_exact_def)
  have b1: "float64_exact (last_size \<lparr>metrics = [([''ns'', ''pod'', ''8cdb-f8bd'', ''app''], 20)],
             sizes = [(''/var/log/pods/ns_pod_8cdb-f8bd/app/0.log'', 14)], logged = []\<rparr>
             ''/var/log/pods/ns_pod_8cdb-f8bd/app/0.log'')"
    using e by (simp add: last_size_def)
  have b2: "float64_exact (counter_value \<lparr>metrics = [([''ns'', ''pod'', ''8cdb-f8bd'', ''app''], 20)],
             sizes = [(''/var/log/pods/ns_pod_8cdb-f8bd/app/0.log'', 14)], logged = []\<rparr>
             (label_values \<lparr>Namespace = ''ns'', Name = ''pod'', UUID = ''8cdb-f8bd'', Container = ''app''\<rparr>))"
    using e by (simp add: counter_value_def label_values_def)
  have b3: "float64_exact (counter_value \<lparr>metrics = [([''ns'', ''pod'', ''8cdb-f8bd'', ''app''], 20)],
             sizes = [(''/var/log/pods/ns_pod_8cdb-f8bd/app/0.log'', 14)], logged = []\<rparr>
             (label_values \<lparr>Namespace = ''ns'', Name = ''pod'', UUID = ''8cdb-f8bd'', Container = ''app''\<rparr>) + int 6)"
    using e by (simp add: counter_value_def label_values_def)
  from Update_accounts_size [OF p b1 b2 b3, of "Inl (ErrOther ''not a directory'')"]
  have "\<exists>w'. Update ''/var/log/pods/ns_pod_8cdb-f8bd/app/0.log''
            (FsNode (Inr 6) (Inl (ErrOther ''not a directory'')))
            \<lparr>metrics = [([''ns'', ''pod'', ''8cdb-f8bd'', ''app''], 20)],
             sizes = [(''/var/log/pods/ns_pod_8cdb-f8bd/app/0.log'', 14)], logged = []\<rparr> = Some w' \<and>
         map_of (metrics w') [''ns'', ''pod'', ''8cdb-f8bd'', ''app''] = Some 26 \<and>
         map_of (sizes w') ''/var/log/pods/ns_pod_8cdb-f8bd/app/0.log'' = Some 6"
    by (simp add: label_values_def counter_value_def last_size_def) blast
  with p e show ?thesis by blast
qed

text \<open>
  C5. When the labels of \<open>path\<close> parse and the stat fails, \<^verbatim>\<open>Update\<close> returns with the
  state as it was when the error is a does-not-exist error (nothing is logged), and with
  only the error added to the log otherwise: sizes and counters are as they were.
\<close>

theorem Update_stat_failure:
  assumes "Parse path = Some l"
  shows "(os_IsNotExist err \<longrightarrow> Update path (FsNode (Inl err) rd) w = Some w) \<and>
         (\<not> os_IsNotExist err \<longrightarrow>
            Update path (FsNode (Inl err) rd) w =
              Some (w\<lparr>logged := logged w @ [LogError err path]\<rparr>))"
  using assms by (simp add: Update.simps)

theorem Update_stat_failure_witness:
  "Parse ''/var/log/pods/ns_pod_8cdb-f8bd/app/0.log'' =
     Some \<lparr>Namespace = ''ns'', Name = ''pod'', UUID = ''8cdb-f8bd'', Container = ''app''\<rparr> \<and>
   Update ''/var/log/pods/ns_pod_8cdb-f8bd/app/0.log'' (FsNode (Inl ErrNotExist) (Inl ErrNotExist))
     \<lparr>metrics = [([''ns'', ''pod'', ''8cdb-f8bd'', ''app''], 20)],
      sizes = [(''/var/log/pods/ns_pod_8cdb-f8bd/app/0.log'', 14)], logged = []\<rparr> =
   Some \<lparr>metrics = [([''ns'', ''pod'', ''8cdb-f8bd'', ''app''], 20)],
      sizes = [(''/var/log/pods/ns_pod_8cdb-f8bd/app/0.log'', 14)], logged = []\<rparr> \<and>
   Update ''/var/log/pods/ns_pod_8cdb-f8bd/app/0.log''
     (FsNode (Inl ErrPermission) (Inl ErrPermission))
     \<lparr>metrics = [([''ns'', ''pod'', ''8cdb-f8bd'', ''app''], 20)],
      sizes = [(''/var/log/pods/ns_pod_8cdb-f8bd/app/0.log'', 14)], logged = []\<rparr> =
   Some \<lparr>metrics = [([''ns'', ''pod'', ''8cdb-f8bd'', ''app''], 20)],
      sizes = [(''/var/log/pods/ns_pod_8cdb-f8bd/app/0.log'', 14)],
      logged = [LogError ErrPermission ''/var/log/pods/ns_pod_8cdb-f8bd/app/0.log'']\<rparr>"
proof -
  have p: "Parse ''/var/log/pods/ns_pod_8cdb-f8bd/app/0.log'' =
     Some \<lparr>Namespace = ''ns'', Name = ''pod'', UUID = ''8cdb-f8bd'', Container = ''app''\<rparr>"
    by (simp add: Parse_def logFile_def word_cls_def hex_cls_def)
  show ?thesis
    using Update_stat_failure [OF p, of ErrNotExist "Inl ErrNotExist"
       "\<lparr>metrics = [([''ns'', ''pod'', ''8cdb-f8bd'', ''app''], 20)],
         sizes = [(''/var/log/pods/ns_pod_8cdb-f8bd/app/0.log'', 14)], logged = []\<rparr>"]
      Update_stat_failure [OF p, of ErrPermission "Inl ErrPermission"
       "\<lparr>metrics = [([''ns'', ''pod'', ''8cdb-f8bd'', ''app''], 20)],
         sizes = [(''/var/log/pods/ns_pod_8cdb-f8bd/app/0.log'', 14)], logged = []\<rparr>"]
    by (simp add: p os_IsNotExist_def)
qed

section \<open>Update on a directory\<close>

lemma Update_children:
  "fold (\<lambda>(name, child) r. Option.bind r (Update (filepath_Join path name) child)) infos (Some w) =
   UpdateAll (map (\<lambda>(name, child). (filepath_Join path name, child)) infos) w"
proof (induction infos arbitrary: w)
  case Nil
  show ?case by simp
next
  case (Cons x xs)
  obtain name child where x: "x = (name, child)" by (cases x)
  show ?case
  proof (cases "Update (filepath_Join path name) child w")
    case None
    have "fold (\<lambda>(name, child) r. Option.bind r (Update (filepath_Join path name) child)) xs None
            = None"
      by (induction xs) auto
    with None x show ?thesis by simp
  next
    case (Some w')
    with x Cons.IH [of w'] show ?thesis by simp
  qed
qed

text \<open>
  C6. When the labels of \<open>path\<close> do not parse, \<^verbatim>\<open>Update\<close> lists the path, whatever its
  stat would give: it is the sequence of the \<^verbatim>\<open>Update\<close> calls on the entries, each under
  its joined path, in the order of the listing; when the listing fails it returns with the
  state as it was.
\<close>

theorem Update_directory:
  assumes "Parse path = None"
  shows "Update path (FsNode st (Inr infos)) w =
           UpdateAll (map (\<lambda>(name, child). (filepath_Join path name, child)) infos) w \<and>
         Update path (FsNode st (Inl err)) w = Some w"
  using assms by (simp add: Update.simps Update_children)

theorem Update_directory_witness:
  "Parse ''/var/log/pods'' = None \<and>
   Update ''/var/log/pods''
     (FsNode (Inr 4096) (Inr [(''ns_pod_8cdb-f8bd'', FsNode (Inr 4096) (Inr [(''app'',
        FsNode (Inr 4096) (Inr [(''0.log'', FsNode (Inr 6) (Inl (ErrOther ''not a directory'')))]))]))]))
     \<lparr>metrics = [], sizes = [], logged = []\<rparr> =
   UpdateAll [(''/var/log/pods/ns_pod_8cdb-f8bd'', FsNode (Inr 4096) (Inr [(''app'',
        FsNode (Inr 4096) (Inr [(''0.log'', FsNode (Inr 6) (Inl (ErrOther ''not a directory'')))]))]))]
     \<lparr>metrics = [], sizes = [], logged = []\<rparr> \<and>
   UpdateAll [(''/var/log/pods/ns_pod_8cdb-f8bd'', FsNode (Inr 4096) (Inr [(''app'',
        FsNode (Inr 4096) (Inr [(''0.log'', FsNode (Inr 6) (Inl (ErrOther ''not a directory'')))]))]))]
     \<lparr>metrics = [], sizes = [], logged = []\<rparr> =
   Some \<lparr>metrics = [([''ns'', ''pod'', ''8cdb-f8bd'', ''app''], 6)],
         sizes = [(''/var/log/pods/ns_pod_8cdb-f8bd/app/0.log'', 6)],
         logged = [LogInfo ''/var/log/pods/ns_pod_8cdb-f8bd/app/0.log'' 6]\<rparr> \<and>
   Update ''/var/log/pods'' (FsNode (Inr 4096) (Inl ErrPermission))
     \<lparr>metrics = [], sizes = [], logged = []\<rparr> = Some \<lparr>metrics = [], sizes = [], logged = []\<rparr>"
proof -
  have p: "Parse ''/var/log/pods'' = None"
    by (simp add: Parse_def logFile_def word_cls_def hex_cls_def)
  have q: "Update ''/var/log/pods/ns_pod_8cdb-f8bd'' (FsNode (Inr 4096) (Inr [(''app'',
        FsNode (Inr 4096) (Inr [(''0.log'', FsNode (Inr 6) (Inl (ErrOther ''not a directory'')))]))]))
     \<lparr>metrics = [], sizes = [], logged = []\<rparr> =
   Some \<lparr>metrics = [([''ns'', ''pod'', ''8cdb-f8bd'', ''app''], 6)],
         sizes = [(''/var/log/pods/ns_pod_8cdb-f8bd/app/0.log'', 6)],
         logged = [LogInfo ''/var/log/pods/ns_pod_8cdb-f8bd/app/0.log'' 6]\<rparr>"
    by (simp add: Update.simps Parse_def logFile_def word_cls_def hex_cls_def filepath_Join_def
        filepath_Clean_def GetMetricWithLabelValues_def Counter_Add_def)
  show ?thesis
    using Update_directory [OF p, of "Inr 4096" "[(''ns_pod_8cdb-f8bd'', FsNode (Inr 4096) (Inr [(''app'',
        FsNode (Inr 4096) (Inr [(''0.log'', FsNode (Inr 6) (Inl (ErrOther ''not a directory'')))]))]))]"
        "\<lparr>metrics = [], sizes = [], logged = []\<rparr>" ErrPermission]
    by (simp add: p q filepath_Join_def filepath_Clean_def)
qed

section \<open>Counters never decrease\<close>

lemma grows_refl: "grows w w"
  by (simp add: grows_def)

lemma grows_trans: "grows w w1 \<Longrightarrow> grows w1 w2 \<Longrightarrow> grows w w2"
  unfolding grows_def by (meson order_trans)

lemma grows_logged: "grows w (w\<lparr>logged := x\<rparr>)"
  by (simp add: grows_def)

lemma UpdateAll_grows:
  assumes "\<And>p fs w. (p, fs) \<in> set calls \<Longrightarrow> \<exists>w'. Update p fs w = Some w' \<and> grows w w'"
  shows "\<exists>w'. UpdateAll calls w = Some w' \<and> grows w w'"
  using assms
proof (induction calls arbitrary: w)
  case Nil
  show ?case by (simp add: grows_refl)
next
  case (Cons c calls)
  obtain p fs where c: "c = (p, fs)" by (cases c)
  from Cons.prems [of p fs w] c obtain w1 where w1: "Update p fs w = Some w1" "grows w w1"
    by auto
  from Cons.IH [of w1] Cons.prems obtain w2 where w2: "UpdateAll calls w1 = Some w2" "grows w1 w2"
    by (meson list.set_intros(2))
  from c w1 w2 show ?case by (auto intro: grows_trans)
qed

lemma Update_file_grows:
  assumes "Parse path = Some l"
  shows "\<exists>w'. Update path (FsNode (Inr n) rd) w = Some w' \<and> grows w w'"
  unfolding Update_file [OF assms] grows_def
  by (auto simp: update_conv' counter_value_def last_size_def)

lemma Update_grows: "\<exists>w'. Update path fs w = Some w' \<and> grows w w'"
proof (induction path fs w rule: Update.induct)
  case (1 path st rd w)
  show ?case
  proof (cases "Parse path")
    case (Some l)
    show ?thesis
    proof (cases st)
      case (Inl err)
      with Some show ?thesis by (simp add: Update.simps grows_refl grows_logged)
    next
      case (Inr n)
      with Update_file_grows [OF Some] show ?thesis by simp
    qed
  next
    case None
    show ?thesis
    proof (cases rd)
      case (Inl err)
      with None show ?thesis by (simp add: Update.simps grows_refl)
    next
      case (Inr infos)
      have "\<exists>w'. UpdateAll (map (\<lambda>(name, child). (filepath_Join path name, child)) infos) w
                    = Some w' \<and> grows w w'"
      proof (rule UpdateAll_grows)
        fix p fs w1
        assume "(p, fs) \<in> set (map (\<lambda>(name, child). (filepath_Join path name, child)) infos)"
        then obtain name where "(name, fs) \<in> set infos" "p = filepath_Join path name" by auto
        with "1.IH" [OF None Inr, of "(name, fs)" name fs "Some w1" w1]
        show "\<exists>w'. Update p fs w1 = Some w' \<and> grows w1 w'" by simp
      qed
      with None Inr show ?thesis by (simp add: Update.simps Update_children)
    qed
  qed
qed

text \<open>
  C2. Any sequence of \<^verbatim>\<open>Update\<close> calls, on any paths and whatever the file system shows,
  returns: \<^verbatim>\<open>Counter.Add\<close> never receives a negative amount, on which it would panic. Every
  series that exists before the calls exists after them, with a value that is not smaller.
\<close>

theorem counters_never_decrease:
  "\<exists>w'. UpdateAll calls w = Some w' \<and>
     (\<forall>lvs v. map_of (metrics w) lvs = Some v \<longrightarrow>
        (\<exists>v'. map_of (metrics w') lvs = Some v' \<and> v \<le> v'))"
  using UpdateAll_grows [of calls w] Update_grows by (simp add: grows_def)

theorem counters_never_decrease_witness:
  "map_of (metrics \<lparr>metrics = [([''ns'', ''pod'', ''8cdb-f8bd'', ''app''], 20)],
      sizes = [(''/var/log/pods/ns_pod_8cdb-f8bd/app/0.log'', 14)], logged = []\<rparr>)
     [''ns'', ''pod'', ''8cdb-f8bd'', ''app''] = Some 20 \<and>
   (\<exists>w'. UpdateAll [(''/var/log/pods/ns_pod_8cdb-f8bd/app/0.log'',
                     FsNode (Inr 6) (Inl (ErrOther ''not a directory''))),
                    (''/var/log/pods/ns_pod_8cdb-f8bd/app/0.log'',
                     FsNode (Inr 0) (Inl (ErrOther ''not a directory'')))]
            \<lparr>metrics = [([''ns'', ''pod'', ''8cdb-f8bd'', ''app''], 20)],
             sizes = [(''/var/log/pods/ns_pod_8cdb-f8bd/app/0.log'', 14)], logged = []\<rparr> = Some w' \<and>
         (\<exists>v'. map_of (metrics w') [''ns'', ''pod'', ''8cdb-f8bd'', ''app''] = Some v' \<and> 20 \<le> v'))"
  using counters_never_decrease [of "[(''/var/log/pods/ns_pod_8cdb-f8bd/app/0.log'',
                     FsNode (Inr 6) (Inl (ErrOther ''not a directory''))),
                    (''/var/log/pods/ns_pod_8cdb-f8bd/app/0.log'',
                     FsNode (Inr 0) (Inl (ErrOther ''not a directory'')))]"
     "\<lparr>metrics = [([''ns'', ''pod'', ''8cdb-f8bd'', ''app''], 20)],
             sizes = [(''/var/log/pods/ns_pod_8cdb-f8bd/app/0.log'', 14)], logged = []\<rparr>"]
  by auto

section \<open>The run loop\<close>

lemma route_returns: "\<exists>w'. route e fs w = Some w'"
  using Update_grows [of "EvName e" fs w] by (auto simp: route_def)

lemma route_all_returns: "\<exists>w'. route_all evs w = Some w'"
proof (induction evs arbitrary: w)
  case Nil
  show ?case by simp
next
  case (Cons x evs)
  obtain e fs where x: "x = (e, fs)" by (cases x)
  from route_returns obtain w1 where "route e fs w = Some w1" by blast
  with x Cons.IH [of w1] show ?case by simp
qed

lemma Watch_events:
  "route_all evs w = Some w' \<Longrightarrow>
   Watch (map (\<lambda>(e, fs). (Inr e, fs)) evs @ rest) w = Watch rest w'"
proof (induction evs arbitrary: w)
  case Nil
  then show ?case by simp
next
  case (Cons x evs)
  obtain e fs where x: "x = (e, fs)" by (cases x)
  from Cons.prems x obtain w1 where w1: "route e fs w = Some w1" "route_all evs w1 = Some w'"
    by (auto split: option.splits)
  from Cons.IH [OF w1(2)] w1(1) x show ?case
    by (auto simp: route_def split: if_splits)
qed

text \<open>
  C7. \<^verbatim>\<open>Watch\<close> handles the events that \<^verbatim>\<open>Event()\<close> yields in order, each as the routing
  says: an event whose op is Remove by \<open>Remove\<close> on its name, any other event (Create, Write,
  Rename and Chmod are other ops) by \<open>Update\<close> on its name. At the first error of
  \<^verbatim>\<open>Event()\<close> it returns: nil when the error is the end of the stream, the error itself
  otherwise. While \<^verbatim>\<open>Event()\<close> yields no error it has not returned.
\<close>

theorem Watch_routes:
  "(\<exists>w'. route_all evs w = Some w' \<and>
      Watch (map (\<lambda>(e, fs). (Inr e, fs)) evs @ (Inl err, fs0) # rest) w =
        Returned (if err = EOF then None else Some err) w' \<and>
      Watch (map (\<lambda>(e, fs). (Inr e, fs)) evs) w = Waiting w') \<and>
   (EvOp e = fsnotify_Remove \<longrightarrow> route e fs w1 = Some (Remove (EvName e) w1)) \<and>
   (EvOp e \<noteq> fsnotify_Remove \<longrightarrow> route e fs w1 = Update (EvName e) fs w1) \<and>
   (EvOp e \<in> {fsnotify_Create, fsnotify_Write, fsnotify_Rename, fsnotify_Chmod} \<longrightarrow>
      EvOp e \<noteq> fsnotify_Remove)"
proof -
  from route_all_returns obtain w' where w': "route_all evs w = Some w'" by blast
  from Watch_events [OF w', of "(Inl err, fs0) # rest"] Watch_events [OF w', of "[]"] w'
  show ?thesis
    by (auto simp: route_def fsnotify_Remove_def fsnotify_Create_def fsnotify_Write_def
        fsnotify_Rename_def fsnotify_Chmod_def)
qed

theorem Watch_routes_witness:
  "EvOp \<lparr>EvName = ''/var/log/pods/ns_pod_8cdb-f8bd'', EvOp = fsnotify_Remove\<rparr> = fsnotify_Remove \<and>
   EvOp \<lparr>EvName = ''/var/log/pods/ns_pod_8cdb-f8bd/app/0.log'', EvOp = fsnotify_Write\<rparr>
     \<in> {fsnotify_Create, fsnotify_Write, fsnotify_Rename, fsnotify_Chmod} \<and>
   Watch [(Inr \<lparr>EvName = ''/var/log/pods/ns_pod_8cdb-f8bd/app/0.log'', EvOp = fsnotify_Write\<rparr>,
             FsNode (Inr 6) (Inl (ErrOther ''not a directory''))),
          (Inr \<lparr>EvName = ''/var/log/pods/ns_pod_8cdb-f8bd'', EvOp = fsnotify_Remove\<rparr>,
             FsNode (Inl ErrNotExist) (Inl ErrNotExist)),
          (Inl EOF, FsNode (Inl ErrNotExist) (Inl ErrNotExist))]
     \<lparr>metrics = [], sizes = [], logged = []\<rparr> =
   Returned None \<lparr>metrics = [], sizes = [],
                  logged = [LogInfo ''/var/log/pods/ns_pod_8cdb-f8bd/app/0.log'' 6]\<rparr> \<and>
   Watch [(Inr \<lparr>EvName = ''/var/log/pods/ns_pod_8cdb-f8bd/app/0.log'', EvOp = fsnotify_Write\<rparr>,
             FsNode (Inr 6) (Inl (ErrOther ''not a directory''))),
          (Inr \<lparr>EvName = ''/var/log/pods/ns_pod_8cdb-f8bd'', EvOp = fsnotify_Remove\<rparr>,
             FsNode (Inl ErrNotExist) (Inl ErrNotExist)),
          (Inl ErrPermission, FsNode (Inl ErrNotExist) (Inl ErrNotExist))]
     \<lparr>metrics = [], sizes = [], logged = []\<rparr> =
   Returned (Some ErrPermission) \<lparr>metrics = [], sizes = [],
                  logged = [LogInfo ''/var/log/pods/ns_pod_8cdb-f8bd/app/0.log'' 6]\<rparr>"
proof -
  have r: "route_all
       [(\<lparr>EvName = ''/var/log/pods/ns_pod_8cdb-f8bd/app/0.log'', EvOp = fsnotify_Write\<rparr>,
             FsNode (Inr 6) (Inl (ErrOther ''not a directory''))),
        (\<lparr>EvName = ''/var/log/pods/ns_pod_8cdb-f8bd'', EvOp = fsnotify_Remove\<rparr>,
             FsNode (Inl ErrNotExist) (Inl ErrNotExist))]
       \<lparr>metrics = [], sizes = [], logged = []\<rparr> =
     Some \<lparr>metrics = [], sizes = [],
            logged = [LogInfo ''/var/log/pods/ns_pod_8cdb-f8bd/app/0.log'' 6]\<rparr>"
    by (simp add: route_def Update.simps Remove_def Remove_key_def Parse_def logFile_def logPodDir_def
        word_cls_def hex_cls_def GetMetricWithLabelValues_def Counter_Add_def
        DeleteLabelValues_def filepath_HasPrefix_def fsnotify_Remove_def fsnotify_Write_def)
  show ?thesis
    using Watch_routes [of
       "[(\<lparr>EvName = ''/var/log/pods/ns_pod_8cdb-f8bd/app/0.log'', EvOp = fsnotify_Write\<rparr>,
             FsNode (Inr 6) (Inl (ErrOther ''not a directory''))),
        (\<lparr>EvName = ''/var/log/pods/ns_pod_8cdb-f8bd'', EvOp = fsnotify_Remove\<rparr>,
             FsNode (Inl ErrNotExist) (Inl ErrNotExist))]"
       "\<lparr>metrics = [], sizes = [], logged = []\<rparr>" EOF "FsNode (Inl ErrNotExist) (Inl ErrNotExist)" "[]"
       "\<lparr>EvName = ''/var/log/pods/ns_pod_8cdb-f8bd'', EvOp = fsnotify_Remove\<rparr>"]
      Watch_routes [of
       "[(\<lparr>EvName = ''/var/log/pods/ns_pod_8cdb-f8bd/app/0.log'', EvOp = fsnotify_Write\<rparr>,
             FsNode (Inr 6) (Inl (ErrOther ''not a directory''))),
        (\<lparr>EvName = ''/var/log/pods/ns_pod_8cdb-f8bd'', EvOp = fsnotify_Remove\<rparr>,
             FsNode (Inl ErrNotExist) (Inl ErrNotExist))]"
       "\<lparr>metrics = [], sizes = [], logged = []\<rparr>" ErrPermission "FsNode (Inl ErrNotExist) (Inl ErrNotExist)" "[]"
       "\<lparr>EvName = ''/var/log/pods/ns_pod_8cdb-f8bd/app/0.log'', EvOp = fsnotify_Write\<rparr>"]
    unfolding r by (simp add: fsnotify_Remove_def fsnotify_Write_def)
qed

section \<open>Matches of the patterns\<close>

lemma plus_run_iff:
  "(m, r) \<in> set (plus_run a s) \<longleftrightarrow> m \<noteq> [] \<and> s = m @ r \<and> (\<forall>c\<in>set m. accepts a c)"
proof (induction s arbitrary: m)
  case Nil
  show ?case by simp
next
  case (Cons c cs)
  show ?case
  proof (cases "accepts a c")
    case False
    then show ?thesis by (cases m) auto
  next
    case True
    show ?thesis
    proof (cases m)
      case Nil
      with True show ?thesis by auto
    next
      case (Cons c' m')
      with True Cons.IH [of m'] show ?thesis by (cases m') auto
    qed
  qed
qed

lemma rmatch_Plus_iff:
  "(m, g, r) \<in> set (rmatch (Plus a) s) \<longleftrightarrow> g = [] \<and> (m, r) \<in> set (plus_run a s)"
  by force

lemma rmatch_Star_iff:
  "(m, g, r) \<in> set (rmatch (Star a) s) \<longleftrightarrow>
     g = [] \<and> ((m, r) \<in> set (plus_run a s) \<or> (m = [] \<and> r = s))"
  by force

lemma rmatch_Grp_iff:
  "(m, g, r) \<in> set (rmatch (Grp re) s) \<longleftrightarrow> (\<exists>g'. g = m # g' \<and> (m, g', r) \<in> set (rmatch re s))"
  by force

lemma rmatch_Cat_iff:
  "(m, g, r) \<in> set (rmatch (Cat r1 r2) s) \<longleftrightarrow>
     (\<exists>m1 g1 s1 m2 g2. (m1, g1, s1) \<in> set (rmatch r1 s) \<and> (m2, g2, r) \<in> set (rmatch r2 s1) \<and>
        m = m1 @ m2 \<and> g = g1 @ g2)"
proof -
  have "(m, g, r) \<in> set (rmatch (Cat r1 r2) s) \<longleftrightarrow>
          (\<exists>x\<in>set (rmatch r1 s). \<exists>y\<in>set (rmatch r2 (snd (snd x))).
             m = fst x @ fst y \<and> g = fst (snd x) @ fst (snd y) \<and> r = snd (snd y))"
    by (auto simp: split_def)
  also have "\<dots> \<longleftrightarrow> (\<exists>m1 g1 s1 m2 g2. (m1, g1, s1) \<in> set (rmatch r1 s) \<and>
        (m2, g2, r) \<in> set (rmatch r2 s1) \<and> m = m1 @ m2 \<and> g = g1 @ g2)"
    by (simp add: Bex_def)
  finally show ?thesis .
qed

lemma yields_One_Chr: "yields (One (Chr c)) s g r \<longleftrightarrow> s = c # r \<and> g = []"
  by (auto simp: yields_def split: list.splits)

lemma yields_Eot: "yields Eot s g r \<longleftrightarrow> s = [] \<and> g = [] \<and> r = []"
  by (auto simp: yields_def)

lemma yields_Cat:
  "yields (Cat r1 r2) s g r \<longleftrightarrow>
     (\<exists>g1 g2 s1. yields r1 s g1 s1 \<and> yields r2 s1 g2 r \<and> g = g1 @ g2)"
  unfolding yields_def rmatch_Cat_iff by blast

lemma yields_Chr_Cat: "yields (Cat (One (Chr c)) re) s g r \<longleftrightarrow> (\<exists>s'. s = c # s' \<and> yields re s' g r)"
  by (auto simp: yields_Cat yields_One_Chr)

lemma yields_Grp_Plus:
  "yields (Grp (Plus a)) s g r \<longleftrightarrow>
     (\<exists>x. x \<noteq> [] \<and> (\<forall>c\<in>set x. accepts a c) \<and> s = x @ r \<and> g = [x])"
  unfolding yields_def rmatch_Grp_iff rmatch_Plus_iff plus_run_iff by auto

lemma yields_Star:
  "yields (Star a) s g r \<longleftrightarrow> (\<exists>x. (\<forall>c\<in>set x. accepts a c) \<and> s = x @ r \<and> g = [])"
  unfolding yields_def rmatch_Star_iff plus_run_iff by (cases "s = r") auto

lemma rmatch_nonempty: "rmatch re s \<noteq> [] \<longleftrightarrow> (\<exists>g r. yields re s g r)"
  unfolding yields_def by (cases "rmatch re s") auto

lemma rmatch_hd: "rmatch re s = (m, g, r) # rest \<Longrightarrow> yields re s g r"
  unfolding yields_def by auto

lemma yields_GrpPlus_Cat:
  "yields (Cat (Grp (Plus a)) re) s g r \<longleftrightarrow>
     (\<exists>x s' g'. x \<noteq> [] \<and> (\<forall>c\<in>set x. accepts a c) \<and> s = x @ s' \<and> g = x # g' \<and> yields re s' g' r)"
proof
  assume "yields (Cat (Grp (Plus a)) re) s g r"
  then obtain g1 g2 s1 where a: "yields (Grp (Plus a)) s g1 s1" "yields re s1 g2 r" "g = g1 @ g2"
    unfolding yields_Cat by blast
  from a(1) obtain x where x: "x \<noteq> []" "\<forall>c\<in>set x. accepts a c" "s = x @ s1" "g1 = [x]"
    unfolding yields_Grp_Plus by blast
  from a(2,3) x
  have "x \<noteq> [] \<and> (\<forall>c\<in>set x. accepts a c) \<and> s = x @ s1 \<and> g = x # g2 \<and> yields re s1 g2 r"
    by simp
  then show "\<exists>x s' g'. x \<noteq> [] \<and> (\<forall>c\<in>set x. accepts a c) \<and> s = x @ s' \<and> g = x # g' \<and>
               yields re s' g' r"
    by blast
next
  assume "\<exists>x s' g'. x \<noteq> [] \<and> (\<forall>c\<in>set x. accepts a c) \<and> s = x @ s' \<and> g = x # g' \<and>
            yields re s' g' r"
  then obtain x s' g' where x: "x \<noteq> []" "\<forall>c\<in>set x. accepts a c" "s = x @ s'" "g = x # g'"
      "yields re s' g' r"
    by blast
  from x(1,2,3) have "yields (Grp (Plus a)) s [x] s'"
    unfolding yields_Grp_Plus by blast
  with x(4,5) have "yields (Grp (Plus a)) s [x] s' \<and> yields re s' g' r \<and> g = [x] @ g'"
    by simp
  then show "yields (Cat (Grp (Plus a)) re) s g r"
    unfolding yields_Cat by blast
qed

lemma yields_Star_Cat:
  "yields (Cat (Star a) re) s g r \<longleftrightarrow>
     (\<exists>x s'. (\<forall>c\<in>set x. accepts a c) \<and> s = x @ s' \<and> yields re s' g r)"
proof
  assume "yields (Cat (Star a) re) s g r"
  then obtain g1 g2 s1 where a: "yields (Star a) s g1 s1" "yields re s1 g2 r" "g = g1 @ g2"
    unfolding yields_Cat by blast
  from a(1) obtain x where x: "\<forall>c\<in>set x. accepts a c" "s = x @ s1" "g1 = []"
    unfolding yields_Star by blast
  from a(2,3) x have "(\<forall>c\<in>set x. accepts a c) \<and> s = x @ s1 \<and> yields re s1 g r"
    by simp
  then show "\<exists>x s'. (\<forall>c\<in>set x. accepts a c) \<and> s = x @ s' \<and> yields re s' g r"
    by blast
next
  assume "\<exists>x s'. (\<forall>c\<in>set x. accepts a c) \<and> s = x @ s' \<and> yields re s' g r"
  then obtain x s' where x: "\<forall>c\<in>set x. accepts a c" "s = x @ s'" "yields re s' g r"
    by blast
  from x(1,2) have "yields (Star a) s [] s'"
    unfolding yields_Star by blast
  with x(3) have "yields (Star a) s [] s' \<and> yields re s' g r \<and> g = [] @ g"
    by simp
  then show "yields (Cat (Star a) re) s g r"
    unfolding yields_Cat by blast
qed

lemma yields_ChrI: "yields re s' g r \<Longrightarrow> yields (Cat (One (Chr c)) re) (c # s') g r"
  by (simp add: yields_Chr_Cat)

lemma yields_GrpPlusI:
  "x \<noteq> [] \<Longrightarrow> \<forall>c\<in>set x. accepts a c \<Longrightarrow> yields re s' g' r \<Longrightarrow>
   yields (Cat (Grp (Plus a)) re) (x @ s') (x # g') r"
  unfolding yields_GrpPlus_Cat by blast

lemma yields_StarI:
  "\<forall>c\<in>set x. accepts a c \<Longrightarrow> yields re s' g r \<Longrightarrow> yields (Cat (Star a) re) (x @ s') g r"
  unfolding yields_Star_Cat by blast

lemma yields_OneI: "yields (One (Chr c)) (c # r) [] r"
  by (simp add: yields_One_Chr)

lemma yields_EotI: "yields Eot [] [] []"
  by (simp add: yields_Eot)

lemma rest_log_yields:
  "yields rest_log u g r \<longleftrightarrow> g = [] \<and> (\<exists>md. CHR 0x0A \<notin> set md \<and> u = md @ ''.log'' @ r)"
  unfolding rest_log_def
  by (simp add: yields_Star_Cat yields_Chr_Cat yields_One_Chr) blast

lemma pod_then_yields:
  "yields (pod_then re) s g r \<longleftrightarrow>
     (\<exists>x1 x2 x3 s' g'.
        x1 \<noteq> [] \<and> (\<forall>c\<in>set x1. accepts word_cls c) \<and>
        x2 \<noteq> [] \<and> (\<forall>c\<in>set x2. accepts word_cls c) \<and>
        x3 \<noteq> [] \<and> (\<forall>c\<in>set x3. accepts hex_cls c) \<and>
        s = CHR ''/'' # x1 @ CHR ''_'' # x2 @ CHR ''_'' # x3 @ s' \<and>
        g = x1 # x2 # x3 # g' \<and> yields re s' g' r)"
  (is "?L \<longleftrightarrow> ?R")
proof
  assume ?L
  then obtain s1 where 1: "s = CHR ''/'' # s1"
    and "yields (Cat (Grp (Plus word_cls)) (Cat (One (Chr CHR ''_''))
     (Cat (Grp (Plus word_cls)) (Cat (One (Chr CHR ''_'')) (Cat (Grp (Plus hex_cls)) re))))) s1 g r"
    unfolding pod_then_def yields_Chr_Cat by blast
  then obtain x1 s2 g1 where 2: "x1 \<noteq> []" "\<forall>c\<in>set x1. accepts word_cls c" "s1 = x1 @ s2" "g = x1 # g1"
    and "yields (Cat (One (Chr CHR ''_''))
     (Cat (Grp (Plus word_cls)) (Cat (One (Chr CHR ''_'')) (Cat (Grp (Plus hex_cls)) re)))) s2 g1 r"
    unfolding yields_GrpPlus_Cat by blast
  then obtain s3 where 3: "s2 = CHR ''_'' # s3"
    and "yields (Cat (Grp (Plus word_cls)) (Cat (One (Chr CHR ''_'')) (Cat (Grp (Plus hex_cls)) re))) s3 g1 r"
    unfolding yields_Chr_Cat by blast
  then obtain x2 s4 g2 where 4: "x2 \<noteq> []" "\<forall>c\<in>set x2. accepts word_cls c" "s3 = x2 @ s4" "g1 = x2 # g2"
    and "yields (Cat (One (Chr CHR ''_'')) (Cat (Grp (Plus hex_cls)) re)) s4 g2 r"
    unfolding yields_GrpPlus_Cat by blast
  then obtain s5 where 5: "s4 = CHR ''_'' # s5"
    and "yields (Cat (Grp (Plus hex_cls)) re) s5 g2 r"
    unfolding yields_Chr_Cat by blast
  then obtain x3 s6 g3 where 6: "x3 \<noteq> []" "\<forall>c\<in>set x3. accepts hex_cls c" "s5 = x3 @ s6" "g2 = x3 # g3"
    and 7: "yields re s6 g3 r"
    unfolding yields_GrpPlus_Cat by blast
  from 1 2 3 4 5 6 7
  have "x1 \<noteq> [] \<and> (\<forall>c\<in>set x1. accepts word_cls c) \<and>
        x2 \<noteq> [] \<and> (\<forall>c\<in>set x2. accepts word_cls c) \<and>
        x3 \<noteq> [] \<and> (\<forall>c\<in>set x3. accepts hex_cls c) \<and>
        s = CHR ''/'' # x1 @ CHR ''_'' # x2 @ CHR ''_'' # x3 @ s6 \<and>
        g = x1 # x2 # x3 # g3 \<and> yields re s6 g3 r"
    by simp
  then show ?R by blast
next
  assume ?R
  then obtain x1 x2 x3 s' g' where a:
        "x1 \<noteq> []" "\<forall>c\<in>set x1. accepts word_cls c"
        "x2 \<noteq> []" "\<forall>c\<in>set x2. accepts word_cls c"
        "x3 \<noteq> []" "\<forall>c\<in>set x3. accepts hex_cls c"
        "s = CHR ''/'' # x1 @ CHR ''_'' # x2 @ CHR ''_'' # x3 @ s'"
        "g = x1 # x2 # x3 # g'" "yields re s' g' r"
    by blast
  show ?L
    unfolding pod_then_def a(7,8)
    by (intro yields_ChrI yields_GrpPlusI a)
qed

lemma logFile_pod_then:
  "logFile = pod_then (Cat (One (Chr CHR ''/'')) (Cat (Grp (Plus word_cls)) (Cat (One (Chr CHR ''/'')) rest_log)))"
  by (simp add: logFile_def pod_then_def rest_log_def)

lemma logPodDir_pod_then: "logPodDir = pod_then Eot"
  by (simp add: logPodDir_def pod_then_def)

lemma cls_rejects [simp]:
  "\<not> accepts word_cls CHR ''_''" "\<not> accepts word_cls CHR ''/''" "\<not> accepts hex_cls CHR ''/''"
  "\<not> accepts word_cls CHR ''.''" "\<not> accepts hex_cls CHR ''.''"
  "\<not> accepts word_cls CHR 0x0A" "\<not> accepts hex_cls CHR 0x0A"
  by (simp_all add: word_cls_def hex_cls_def)

lemma hex_word: "accepts hex_cls c \<Longrightarrow> accepts word_cls c"
  by (auto simp: word_cls_def hex_cls_def)

lemma run_unique:
  assumes "\<forall>c\<in>set x. P c" "\<forall>c\<in>set y. P c" "\<not> P a" "\<not> P b" "x @ a # t = y @ b # t'"
  shows "x = y \<and> a = b \<and> t = t'"
proof -
  have "takeWhile P (x @ a # t) = x" using assms(1,3) by (simp add: takeWhile_tail)
  moreover have "takeWhile P (y @ b # t') = y" using assms(2,4) by (simp add: takeWhile_tail)
  ultimately have "x = y" using assms(5) by simp
  with assms(5) show ?thesis by simp
qed

lemma has_log_iff:
  "has_log u \<longleftrightarrow> (\<exists>md r. CHR 0x0A \<notin> set md \<and> u = md @ ''.log'' @ r)"
proof (induction u)
  case Nil
  show ?case by simp
next
  case (Cons c cs)
  show ?case
  proof
    assume "has_log (c # cs)"
    then consider "prefix ''.log'' (c # cs)" | "c \<noteq> CHR 0x0A" "has_log cs" by auto
    then show "\<exists>md r. CHR 0x0A \<notin> set md \<and> c # cs = md @ ''.log'' @ r"
    proof cases
      case 1
      then obtain r where "c # cs = ''.log'' @ r" by (auto simp: prefix_def)
      then have "CHR 0x0A \<notin> set [] \<and> c # cs = [] @ ''.log'' @ r" by simp
      then show ?thesis by blast
    next
      case 2
      with Cons.IH obtain md r where "CHR 0x0A \<notin> set md" "cs = md @ ''.log'' @ r" by blast
      with 2 have "CHR 0x0A \<notin> set (c # md) \<and> c # cs = (c # md) @ ''.log'' @ r" by simp
      then show ?thesis by blast
    qed
  next
    assume "\<exists>md r. CHR 0x0A \<notin> set md \<and> c # cs = md @ ''.log'' @ r"
    then obtain md r where md: "CHR 0x0A \<notin> set md" "c # cs = md @ ''.log'' @ r" by blast
    show "has_log (c # cs)"
    proof (cases md)
      case Nil
      with md show ?thesis by (simp add: prefix_def)
    next
      case (Cons c' md')
      with md have "c \<noteq> CHR 0x0A" "CHR 0x0A \<notin> set md'" "cs = md' @ ''.log'' @ r" by auto
      with Cons.IH show ?thesis by auto
    qed
  qed
qed

lemma logFile_yields:
  "yields logFile s g r \<longleftrightarrow>
     (\<exists>l md. wf_labels l \<and> CHR 0x0A \<notin> set md \<and> s = container_dir l @ md @ ''.log'' @ r \<and>
        g = label_values l)"
  (is "?L \<longleftrightarrow> ?R")
proof
  assume ?L
  then obtain x1 x2 x3 s' g' where a:
        "x1 \<noteq> []" "\<forall>c\<in>set x1. accepts word_cls c"
        "x2 \<noteq> []" "\<forall>c\<in>set x2. accepts word_cls c"
        "x3 \<noteq> []" "\<forall>c\<in>set x3. accepts hex_cls c"
        "s = CHR ''/'' # x1 @ CHR ''_'' # x2 @ CHR ''_'' # x3 @ s'"
        "g = x1 # x2 # x3 # g'"
    and "yields (Cat (One (Chr CHR ''/'')) (Cat (Grp (Plus word_cls)) (Cat (One (Chr CHR ''/'')) rest_log))) s' g' r"
    unfolding logFile_pod_then pod_then_yields by blast
  then obtain s1 where 1: "s' = CHR ''/'' # s1"
    and "yields (Cat (Grp (Plus word_cls)) (Cat (One (Chr CHR ''/'')) rest_log)) s1 g' r"
    unfolding yields_Chr_Cat by blast
  then obtain x4 s2 g1 where 2: "x4 \<noteq> []" "\<forall>c\<in>set x4. accepts word_cls c" "s1 = x4 @ s2" "g' = x4 # g1"
    and "yields (Cat (One (Chr CHR ''/'')) rest_log) s2 g1 r"
    unfolding yields_GrpPlus_Cat by blast
  then obtain s3 where 3: "s2 = CHR ''/'' # s3" and "yields rest_log s3 g1 r"
    unfolding yields_Chr_Cat by blast
  then obtain md where 4: "g1 = []" "CHR 0x0A \<notin> set md" "s3 = md @ ''.log'' @ r"
    unfolding rest_log_yields by blast
  let ?l = "\<lparr>Namespace = x1, Name = x2, UUID = x3, Container = x4\<rparr>"
  from a 1 2 3 4
  have "wf_labels ?l \<and> CHR 0x0A \<notin> set md \<and> s = container_dir ?l @ md @ ''.log'' @ r \<and>
        g = label_values ?l"
    by (simp add: wf_labels_def container_dir_def label_values_def list_all_iff)
  then show ?R by blast
next
  assume ?R
  then obtain l md where a: "wf_labels l" "CHR 0x0A \<notin> set md"
    "s = container_dir l @ md @ ''.log'' @ r" "g = label_values l"
    by blast
  from a(2) have "yields rest_log (md @ ''.log'' @ r) [] r"
    unfolding rest_log_yields by blast
  then have "yields (Cat (One (Chr CHR ''/'')) (Cat (Grp (Plus word_cls)) (Cat (One (Chr CHR ''/'')) rest_log)))
          (CHR ''/'' # Container l @ CHR ''/'' # md @ ''.log'' @ r) [Container l] r"
    using a(1) by (intro yields_ChrI yields_GrpPlusI) (simp_all add: wf_labels_def list_all_iff)
  with a(1) have "Namespace l \<noteq> [] \<and> (\<forall>c\<in>set (Namespace l). accepts word_cls c) \<and>
        Name l \<noteq> [] \<and> (\<forall>c\<in>set (Name l). accepts word_cls c) \<and>
        UUID l \<noteq> [] \<and> (\<forall>c\<in>set (UUID l). accepts hex_cls c) \<and>
        s = CHR ''/'' # Namespace l @ CHR ''_'' # Name l @ CHR ''_'' # UUID l @
              (CHR ''/'' # Container l @ CHR ''/'' # md @ ''.log'' @ r) \<and>
        g = Namespace l # Name l # UUID l # [Container l] \<and>
        yields (Cat (One (Chr CHR ''/'')) (Cat (Grp (Plus word_cls)) (Cat (One (Chr CHR ''/'')) rest_log)))
          (CHR ''/'' # Container l @ CHR ''/'' # md @ ''.log'' @ r) [Container l] r"
    by (simp add: a(3,4) wf_labels_def container_dir_def label_values_def list_all_iff)
  then have "\<exists>x1 x2 x3 s' g'.
        x1 \<noteq> [] \<and> (\<forall>c\<in>set x1. accepts word_cls c) \<and>
        x2 \<noteq> [] \<and> (\<forall>c\<in>set x2. accepts word_cls c) \<and>
        x3 \<noteq> [] \<and> (\<forall>c\<in>set x3. accepts hex_cls c) \<and>
        s = CHR ''/'' # x1 @ CHR ''_'' # x2 @ CHR ''_'' # x3 @ s' \<and>
        g = x1 # x2 # x3 # g' \<and>
        yields (Cat (One (Chr CHR ''/'')) (Cat (Grp (Plus word_cls)) (Cat (One (Chr CHR ''/'')) rest_log))) s' g' r"
    by blast
  then show ?L unfolding logFile_pod_then pod_then_yields .
qed

lemma logFile_matches:
  "rmatch logFile s \<noteq> [] \<longleftrightarrow> (\<exists>l u. wf_labels l \<and> s = container_dir l @ u \<and> has_log u)"
  unfolding rmatch_nonempty logFile_yields has_log_iff by blast

lemma container_dir_unique:
  assumes "wf_labels l" "wf_labels l'" "container_dir l @ u = container_dir l' @ u'"
  shows "l = l' \<and> u = u'"
proof -
  from assms(3) have e1: "Namespace l @ CHR ''_'' # (Name l @ CHR ''_'' # UUID l @ CHR ''/'' # Container l @ CHR ''/'' # u)
      = Namespace l' @ CHR ''_'' # (Name l' @ CHR ''_'' # UUID l' @ CHR ''/'' # Container l' @ CHR ''/'' # u')"
    by (simp add: container_dir_def)
  from assms(1,2) have 1: "Namespace l = Namespace l' \<and> CHR ''_'' = CHR ''_'' \<and>
      Name l @ CHR ''_'' # UUID l @ CHR ''/'' # Container l @ CHR ''/'' # u =
      Name l' @ CHR ''_'' # UUID l' @ CHR ''/'' # Container l' @ CHR ''/'' # u'"
    by (intro run_unique [OF _ _ _ _ e1, of "accepts word_cls"]) (simp_all add: wf_labels_def list_all_iff)
  then have e2: "Name l @ CHR ''_'' # (UUID l @ CHR ''/'' # Container l @ CHR ''/'' # u) =
      Name l' @ CHR ''_'' # (UUID l' @ CHR ''/'' # Container l' @ CHR ''/'' # u')" by simp
  from assms(1,2) have 2: "Name l = Name l' \<and> CHR ''_'' = CHR ''_'' \<and>
      UUID l @ CHR ''/'' # Container l @ CHR ''/'' # u = UUID l' @ CHR ''/'' # Container l' @ CHR ''/'' # u'"
    by (intro run_unique [OF _ _ _ _ e2, of "accepts word_cls"]) (simp_all add: wf_labels_def list_all_iff)
  then have e3: "UUID l @ CHR ''/'' # (Container l @ CHR ''/'' # u) = UUID l' @ CHR ''/'' # (Container l' @ CHR ''/'' # u')"
    by simp
  from assms(1,2) have 3: "UUID l = UUID l' \<and> CHR ''/'' = CHR ''/'' \<and>
      Container l @ CHR ''/'' # u = Container l' @ CHR ''/'' # u'"
    by (intro run_unique [OF _ _ _ _ e3, of "accepts hex_cls"]) (simp_all add: wf_labels_def list_all_iff)
  then have e4: "Container l @ CHR ''/'' # u = Container l' @ CHR ''/'' # u'" by simp
  from assms(1,2) have 4: "Container l = Container l' \<and> CHR ''/'' = CHR ''/'' \<and> u = u'"
    by (intro run_unique [OF _ _ _ _ e4, of "accepts word_cls"]) (simp_all add: wf_labels_def list_all_iff)
  from 1 2 3 4 show ?thesis by simp
qed

lemma log_at_iff: "log_at s l \<longleftrightarrow> wf_labels l \<and> (\<exists>u. s = container_dir l @ u \<and> has_log u)"
  unfolding log_at_def prefix_def by auto

lemma log_at_unique: "log_at s l \<Longrightarrow> log_at s l' \<Longrightarrow> l = l'"
  unfolding log_at_iff using container_dir_unique by blast

lemma logFile_matches_log_at: "rmatch logFile s \<noteq> [] \<longleftrightarrow> (\<exists>l. log_at s l)"
  unfolding logFile_matches log_at_iff by blast

lemma logFile_hd_groups:
  assumes "rmatch logFile s = (m, g, r) # rest"
  shows "\<exists>l. log_at s l \<and> g = label_values l"
proof -
  from rmatch_hd [OF assms] obtain l md where
    "wf_labels l" "CHR 0x0A \<notin> set md" "s = container_dir l @ md @ ''.log'' @ r" "g = label_values l"
    unfolding logFile_yields by blast
  moreover from this have "has_log (md @ ''.log'' @ r)" unfolding has_log_iff by blast
  ultimately show ?thesis unfolding log_at_iff by blast
qed

section \<open>Label extraction finds the leftmost container directory\<close>

lemma Parse_Nil: "Parse [] = None"
  by (simp add: Parse_def logFile_def)

lemma Parse_here:
  assumes "log_at s l"
  shows "Parse s = Some l"
proof -
  from assms have "rmatch logFile s \<noteq> []" using logFile_matches_log_at by blast
  then obtain m g r rest where hd: "rmatch logFile s = (m, g, r) # rest"
    by (cases "rmatch logFile s") auto
  from logFile_hd_groups [OF hd] log_at_unique [OF assms] have g: "g = label_values l" by blast
  from hd have "FindStringSubmatch logFile s = Some (m # g)" by (cases s) simp_all
  with g show ?thesis by (simp add: Parse_def label_values_def)
qed

lemma Parse_skip:
  assumes "\<And>l. \<not> log_at (c # cs) l"
  shows "Parse (c # cs) = Parse cs"
proof -
  from assms have "rmatch logFile (c # cs) = []" using logFile_matches_log_at by blast
  then show ?thesis by (simp add: Parse_def)
qed

lemma Parse_Some_D:
  "Parse s = Some l \<Longrightarrow>
     \<exists>pre t. s = pre @ t \<and> log_at t l \<and> (\<forall>a b x. pre = a @ b \<and> b \<noteq> [] \<longrightarrow> \<not> log_at (b @ t) x)"
proof (induction s)
  case Nil
  then show ?case by (simp add: Parse_Nil)
next
  case (Cons c cs)
  show ?case
  proof (cases "\<exists>x. log_at (c # cs) x")
    case True
    then obtain x where x: "log_at (c # cs) x" by blast
    with Parse_here Cons.prems have "x = l" by fastforce
    with x have "c # cs = [] @ (c # cs) \<and> log_at (c # cs) l \<and>
        (\<forall>a b x. [] = a @ b \<and> b \<noteq> [] \<longrightarrow> \<not> log_at (b @ c # cs) x)" by simp
    then show ?thesis by blast
  next
    case False
    with Parse_skip Cons.prems have "Parse cs = Some l" by metis
    with Cons.IH obtain pre t where pt: "cs = pre @ t" "log_at t l"
      "\<forall>a b x. pre = a @ b \<and> b \<noteq> [] \<longrightarrow> \<not> log_at (b @ t) x" by blast
    have "\<forall>a b x. c # pre = a @ b \<and> b \<noteq> [] \<longrightarrow> \<not> log_at (b @ t) x"
    proof (intro allI impI)
      fix a b x
      assume ab: "c # pre = a @ b \<and> b \<noteq> []"
      show "\<not> log_at (b @ t) x"
      proof (cases a)
        case Nil
        with ab pt(1) False show ?thesis by auto
      next
        case (Cons a1 a')
        with ab pt(3) show ?thesis by auto
      qed
    qed
    with pt(1,2) have "c # cs = (c # pre) @ t \<and> log_at t l \<and>
       (\<forall>a b x. c # pre = a @ b \<and> b \<noteq> [] \<longrightarrow> \<not> log_at (b @ t) x)" by simp
    then show ?thesis by blast
  qed
qed

lemma Parse_leftmost:
  "log_at t l \<Longrightarrow> (\<And>a b x. pre = a @ b \<Longrightarrow> b \<noteq> [] \<Longrightarrow> \<not> log_at (b @ t) x) \<Longrightarrow>
   Parse (pre @ t) = Some l"
proof (induction pre)
  case Nil
  then show ?case by (simp add: Parse_here)
next
  case (Cons c pre)
  from Cons.prems(2) [of "[]" "c # pre"] have "\<And>x. \<not> log_at (c # pre @ t) x" by simp
  then have "Parse ((c # pre) @ t) = Parse (pre @ t)" using Parse_skip by simp
  moreover have "Parse (pre @ t) = Some l"
  proof (rule Cons.IH [OF Cons.prems(1)])
    fix a b x
    assume "pre = a @ b" "b \<noteq> []"
    then show "\<not> log_at (b @ t) x" using Cons.prems(2) [of "c # a" b] by simp
  qed
  ultimately show ?case by simp
qed

lemma Parse_somewhere: "log_at t l \<Longrightarrow> \<exists>l'. Parse (pre @ t) = Some l'"
proof (induction pre)
  case Nil
  then show ?case by (simp add: Parse_here)
next
  case (Cons c pre)
  show ?case
  proof (cases "\<exists>x. log_at (c # pre @ t) x")
    case True
    then show ?thesis using Parse_here by fastforce
  next
    case False
    then have "Parse ((c # pre) @ t) = Parse (pre @ t)" using Parse_skip by simp
    with Cons show ?thesis by simp
  qed
qed

lemma prefix_takeWhile:
  "\<forall>c\<in>set x. P c \<Longrightarrow> prefix x (takeWhile P s) = prefix x s"
proof (induction x arbitrary: s)
  case Nil
  show ?case by simp
next
  case (Cons a x)
  then show ?case by (cases s) auto
qed

lemma has_log_first_line: "has_log u = has_log (takeWhile (\<lambda>c. c \<noteq> CHR 0x0A) u)"
proof (induction u)
  case Nil
  show ?case by simp
next
  case (Cons c cs)
  show ?case
  proof (cases "c = CHR 0x0A")
    case True
    then show ?thesis by simp
  next
    case False
    have "prefix ''.log'' (takeWhile (\<lambda>c. c \<noteq> CHR 0x0A) (c # cs)) = prefix ''.log'' (c # cs)"
      by (rule prefix_takeWhile) simp
    with False Cons.IH show ?thesis by simp
  qed
qed

lemma has_log_newline: "CHR 0x0A \<in> set u \<Longrightarrow> has_log (u @ f) = has_log u"
  using has_log_first_line [of "u @ f"] has_log_first_line [of u]
  by (simp add: takeWhile_append1)

lemma has_log_extend: "CHR 0x0A \<notin> set v \<Longrightarrow> has_log t \<Longrightarrow> has_log (v @ t)"
  by (induction v) auto

lemma has_log_strip: "CHR ''.'' \<notin> set z \<Longrightarrow> has_log (z @ t) \<Longrightarrow> has_log t"
  by (induction z) auto

lemma container_dir_chars:
  assumes "wf_labels l"
  shows "CHR ''.'' \<notin> set (container_dir l)" "CHR 0x0A \<notin> set (container_dir l)"
  using assms cls_rejects hex_word
  by (auto simp: wf_labels_def container_dir_def list_all_iff)

lemma within_dir:
  assumes "x @ CHR ''/'' # v = d @ f" "CHR ''/'' \<notin> set f"
  shows "\<exists>u. d = x @ CHR ''/'' # u \<and> v = u @ f"
proof -
  from assms(1) have "(x @ [CHR ''/'']) @ v = d @ f" by simp
  then obtain w where w: "(x @ [CHR ''/''] = d @ w \<and> w @ v = f) \<or> ((x @ [CHR ''/'']) @ w = d \<and> v = w @ f)"
    unfolding append_eq_append_conv2 by blast
  show ?thesis
  proof (cases "w = []")
    case True
    with w show ?thesis by auto
  next
    case False
    show ?thesis
    proof (rule disjE [OF w])
      assume a: "x @ [CHR ''/''] = d @ w \<and> w @ v = f"
      with False have "last w = CHR ''/''" by (metis last_appendR last_snoc)
      with False have "CHR ''/'' \<in> set w" using last_in_set by metis
      with a assms(2) show ?thesis by auto
    next
      assume "(x @ [CHR ''/'']) @ w = d \<and> v = w @ f"
      then show ?thesis by auto
    qed
  qed
qed

lemma log_at_within:
  assumes "pre @ t = d @ f" "log_at t l" "CHR ''/'' \<notin> set f"
  shows "\<exists>u. d = pre @ container_dir l @ u \<and> has_log (u @ f)"
proof -
  from assms(2) obtain v where v: "t = container_dir l @ v" "has_log v"
    unfolding log_at_iff by blast
  define x where "x = pre @ CHR ''/'' # Namespace l @ CHR ''_'' # Name l @ CHR ''_'' # UUID l @
     CHR ''/'' # Container l"
  have cd: "pre @ container_dir l = x @ ''/''" by (simp add: x_def container_dir_def)
  with assms(1) v(1) have "x @ CHR ''/'' # v = d @ f" by (metis append.assoc append_Cons append_Nil)
  from within_dir [OF this assms(3)] obtain u where "d = x @ CHR ''/'' # u" "v = u @ f" by blast
  with cd v(2) have "d = pre @ container_dir l @ u \<and> has_log (u @ f)"
    by (metis append.assoc append_Cons append_Nil)
  then show ?thesis by blast
qed

lemma log_at_transfer:
  assumes f: "CHR ''/'' \<notin> set f1" "CHR ''/'' \<notin> set f2"
    and here: "log_at (d @ f1) l"
    and later: "d @ f2 = pre @ t" "log_at t l'"
  shows "log_at (d @ f2) l"
proof -
  from here have wf: "wf_labels l" unfolding log_at_iff by blast
  from later(2) have wf': "wf_labels l'" unfolding log_at_iff by blast
  from log_at_within [of "[]" "d @ f1" d f1 l] here f(1)
  obtain u where u: "d = container_dir l @ u" "has_log (u @ f1)" by auto
  from log_at_within [OF later(1) [symmetric] later(2) f(2)]
  obtain u' where u': "d = pre @ container_dir l' @ u'" "has_log (u' @ f2)" by blast
  have "has_log (u @ f2)"
  proof (cases "CHR 0x0A \<in> set u")
    case True
    with u(2) show ?thesis by (simp add: has_log_newline)
  next
    case False
    from u(1) u'(1) have "container_dir l @ u = (pre @ container_dir l') @ u'" by simp
    then obtain w where w: "(container_dir l = (pre @ container_dir l') @ w \<and> w @ u = u') \<or>
        (container_dir l @ w = pre @ container_dir l' \<and> u = w @ u')"
      unfolding append_eq_append_conv2 by blast
    show ?thesis
    proof (rule disjE [OF w])
      assume a: "container_dir l = (pre @ container_dir l') @ w \<and> w @ u = u'"
      with container_dir_chars(1) [OF wf] have "CHR ''.'' \<notin> set w"
        by (metis Un_iff set_append)
      moreover from a u'(2) have "has_log (w @ u @ f2)" by auto
      ultimately show ?thesis by (rule has_log_strip)
    next
      assume a: "container_dir l @ w = pre @ container_dir l' \<and> u = w @ u'"
      with False have "CHR 0x0A \<notin> set w" by auto
      from has_log_extend [OF this u'(2)] a show ?thesis by simp
    qed
  qed
  with wf u(1) show ?thesis unfolding log_at_iff by auto
qed

lemma leftmost_le:
  assumes f: "CHR ''/'' \<notin> set f1" "CHR ''/'' \<notin> set f2"
    and p1: "d @ f1 = pre1 @ t1" "log_at t1 l1"
    and p2: "d @ f2 = pre2 @ t2" "log_at t2 l2"
      "\<forall>a b x. pre2 = a @ b \<and> b \<noteq> [] \<longrightarrow> \<not> log_at (b @ t2) x"
  shows "length pre2 \<le> length pre1"
proof (rule ccontr)
  assume "\<not> length pre2 \<le> length pre1"
  then have lt: "length pre1 < length pre2" by simp
  from log_at_within [OF p1(1) [symmetric] p1(2) f(1)]
  obtain u1 where u1: "d = pre1 @ container_dir l1 @ u1" by blast
  from log_at_within [OF p2(1) [symmetric] p2(2) f(2)]
  obtain u2 where u2: "d = pre2 @ container_dir l2 @ u2" by blast
  from u1 u2 have "pre1 @ (container_dir l1 @ u1) = pre2 @ (container_dir l2 @ u2)" by simp
  with lt obtain b where b: "pre2 = pre1 @ b" "b \<noteq> []"
    unfolding append_eq_append_conv2 by auto
  define d1 where "d1 = container_dir l1 @ u1"
  from u1 p1(1) have t1: "t1 = d1 @ f1" by (simp add: d1_def)
  from u1 u2 b have d1: "d1 = b @ container_dir l2 @ u2" by (simp add: d1_def)
  from u2 p2(1) have t2: "t2 = (container_dir l2 @ u2) @ f2" by simp
  from d1 t2 have "d1 @ f2 = b @ t2" by simp
  from log_at_transfer [OF f _ this p2(2), of l1] p1(2) t1
  have "log_at (d1 @ f2) l1" by simp
  with \<open>d1 @ f2 = b @ t2\<close> p2(3) b show False by auto
qed

lemma Parse_same_dir:
  assumes f: "CHR ''/'' \<notin> set f1" "CHR ''/'' \<notin> set f2"
    and p1: "Parse (d @ f1) = Some l1" and p2: "Parse (d @ f2) = Some l2"
  shows "l1 = l2"
proof -
  from Parse_Some_D [OF p1] obtain pre1 t1 where 1: "d @ f1 = pre1 @ t1" "log_at t1 l1"
    "\<forall>a b x. pre1 = a @ b \<and> b \<noteq> [] \<longrightarrow> \<not> log_at (b @ t1) x" by blast
  from Parse_Some_D [OF p2] obtain pre2 t2 where 2: "d @ f2 = pre2 @ t2" "log_at t2 l2"
    "\<forall>a b x. pre2 = a @ b \<and> b \<noteq> [] \<longrightarrow> \<not> log_at (b @ t2) x" by blast
  from leftmost_le [OF f 1(1,2) 2] leftmost_le [OF f(2,1) 2(1,2) 1]
  have len: "length pre1 = length pre2" by simp
  from log_at_within [OF 1(1) [symmetric] 1(2) f(1)]
  obtain u1 where u1: "d = pre1 @ container_dir l1 @ u1" by blast
  from log_at_within [OF 2(1) [symmetric] 2(2) f(2)]
  obtain u2 where u2: "d = pre2 @ container_dir l2 @ u2" by blast
  from u1 u2 len have "container_dir l1 @ u1 = container_dir l2 @ u2" by (metis append_eq_append_conv)
  moreover from 1(2) 2(2) have "wf_labels l1" "wf_labels l2" unfolding log_at_iff by blast+
  ultimately show ?thesis using container_dir_unique by blast
qed

lemma Parse_in_dir:
  assumes "CHR ''/'' \<notin> set f" "Parse (d @ f) = Some l"
  shows "\<exists>pre u. d = pre @ container_dir l @ u"
proof -
  from Parse_Some_D [OF assms(2)] obtain pre t where "d @ f = pre @ t" "log_at t l" by blast
  from log_at_within [OF this(1) [symmetric] this(2) assms(1)] show ?thesis by blast
qed

lemma counter_value_update:
  "counter_value (w\<lparr>metrics := AList.update lvs v (metrics w), sizes := x, logged := y\<rparr>) lvs = v"
  by (simp add: counter_value_def update_conv')

text \<open>
  C3. Two paths with the same directory part \<open>d\<close> and any two file names (no separator in
  them), both accepted by \<^verbatim>\<open>Parse\<close>, get the same labels. The labels are read in the
  directory part: it contains the directory of the container they name, so no label has a
  character of the file name. \<^verbatim>\<open>Update\<close> on the one path and then on the other returns,
  the series of these labels exists afterwards and no other series has changed. When the
  stored sizes and the counter are counts that \<^verbatim>\<open>float64\<close> holds exactly, and the counter
  stays so when both lengths are added, the counter has grown by the sum of the two
  amounts.
\<close>

theorem labels_ignore_file_name:
  assumes "CHR ''/'' \<notin> set f1" "CHR ''/'' \<notin> set f2"
    and "Parse (d @ f1) = Some l1" and "Parse (d @ f2) = Some l2"
  shows "l1 = l2 \<and> (\<exists>pre u. d = pre @ container_dir l1 @ u) \<and>
         (\<exists>w1 w2. Update (d @ f1) (FsNode (Inr n1) rd1) w = Some w1 \<and>
                   Update (d @ f2) (FsNode (Inr n2) rd2) w1 = Some w2 \<and>
                   map_of (metrics w2) (label_values l1) \<noteq> None \<and>
                   (\<forall>ks. ks \<noteq> label_values l1 \<longrightarrow>
                      map_of (metrics w2) ks = map_of (metrics w) ks) \<and>
                   (float64_exact (last_size w (d @ f1)) \<and> float64_exact (last_size w (d @ f2)) \<and>
                    float64_exact (counter_value w (label_values l1)) \<and>
                    float64_exact (counter_value w (label_values l1) + int n1 + int n2) \<longrightarrow>
                    counter_value w2 (label_values l1) =
                      counter_value w (label_values l1) +
                      (if last_size w (d @ f1) \<le> int n1 then int n1 - last_size w (d @ f1)
                       else int n1) +
                      (if last_size w1 (d @ f2) \<le> int n2 then int n2 - last_size w1 (d @ f2)
                       else int n2) \<and>
                    float64_exact (last_size w1 (d @ f2)) \<and>
                    float64_exact (counter_value w2 (label_values l1))))"
proof -
  from Parse_same_dir [OF assms] have eq: "l1 = l2" .
  from Parse_in_dir [OF assms(1,3)] have dir: "\<exists>pre u. d = pre @ container_dir l1 @ u" .
  define a1 where "a1 = (if last_size w (d @ f1) \<le> int n1 then int n1 - last_size w (d @ f1) else int n1)"
  define w1 where "w1 = w\<lparr>metrics := AList.update (label_values l1)
                     (counter_value w (label_values l1) + a1) (metrics w),
                   sizes := AList.update (d @ f1) (int n1) (sizes w),
                   logged := logged w @ [LogInfo (d @ f1) (int n1)]\<rparr>"
  define a2 where "a2 = (if last_size w1 (d @ f2) \<le> int n2 then int n2 - last_size w1 (d @ f2) else int n2)"
  define w2 where "w2 = w1\<lparr>metrics := AList.update (label_values l1)
                     (counter_value w1 (label_values l1) + a2) (metrics w1),
                   sizes := AList.update (d @ f2) (int n2) (sizes w1),
                   logged := logged w1 @ [LogInfo (d @ f2) (int n2)]\<rparr>"
  have u1: "Update (d @ f1) (FsNode (Inr n1) rd1) w = Some w1"
    unfolding w1_def a1_def by (rule Update_file [OF assms(3)])
  have u2: "Update (d @ f2) (FsNode (Inr n2) rd2) w1 = Some w2"
    unfolding w2_def a2_def using Update_file [OF assms(4), of n2 rd2 w1] eq by simp
  have c1: "counter_value w1 (label_values l1) = counter_value w (label_values l1) + a1"
    unfolding w1_def by (simp add: counter_value_update)
  have c2: "counter_value w2 (label_values l1) = counter_value w (label_values l1) + a1 + a2"
    unfolding w2_def using c1 by (simp add: counter_value_update)
  have ex: "map_of (metrics w2) (label_values l1) \<noteq> None"
    unfolding w2_def by (simp add: update_conv')
  have frame: "\<forall>ks. ks \<noteq> label_values l1 \<longrightarrow> map_of (metrics w2) ks = map_of (metrics w) ks"
    unfolding w2_def w1_def by (simp add: update_conv')
  have ls: "last_size w1 (d @ f2) = (if f1 = f2 then int n1 else last_size w (d @ f2))"
    unfolding w1_def by (simp add: last_size_def update_conv')
  have a1_le: "0 \<le> a1 \<and> a1 \<le> int n1" if "0 \<le> last_size w (d @ f1)"
    using that unfolding a1_def by auto
  have a2_le: "0 \<le> a2 \<and> a2 \<le> int n2" if "0 \<le> last_size w1 (d @ f2)"
    using that unfolding a2_def by auto
  have bounded: "float64_exact (last_size w1 (d @ f2)) \<and>
      float64_exact (counter_value w2 (label_values l1))"
    if b: "float64_exact (last_size w (d @ f1))" "float64_exact (last_size w (d @ f2))"
      "float64_exact (counter_value w (label_values l1))"
      "float64_exact (counter_value w (label_values l1) + int n1 + int n2)"
  proof -
    from b(2,3,4) have l: "float64_exact (last_size w1 (d @ f2))"
      unfolding ls float64_exact_def by auto
    from b(1) a1_le have "0 \<le> a1 \<and> a1 \<le> int n1" by (simp add: float64_exact_def)
    moreover from l a2_le have "0 \<le> a2 \<and> a2 \<le> int n2" by (simp add: float64_exact_def)
    ultimately have "float64_exact (counter_value w2 (label_values l1))"
      using b(3,4) unfolding c2 float64_exact_def by auto
    with l show ?thesis by simp
  qed
  from u1 u2 ex frame c2 bounded
  have "Update (d @ f1) (FsNode (Inr n1) rd1) w = Some w1 \<and>
        Update (d @ f2) (FsNode (Inr n2) rd2) w1 = Some w2 \<and>
        map_of (metrics w2) (label_values l1) \<noteq> None \<and>
        (\<forall>ks. ks \<noteq> label_values l1 \<longrightarrow> map_of (metrics w2) ks = map_of (metrics w) ks) \<and>
        (float64_exact (last_size w (d @ f1)) \<and> float64_exact (last_size w (d @ f2)) \<and>
         float64_exact (counter_value w (label_values l1)) \<and>
         float64_exact (counter_value w (label_values l1) + int n1 + int n2) \<longrightarrow>
         counter_value w2 (label_values l1) =
           counter_value w (label_values l1) +
           (if last_size w (d @ f1) \<le> int n1 then int n1 - last_size w (d @ f1) else int n1) +
           (if last_size w1 (d @ f2) \<le> int n2 then int n2 - last_size w1 (d @ f2) else int n2) \<and>
         float64_exact (last_size w1 (d @ f2)) \<and>
         float64_exact (counter_value w2 (label_values l1)))"
    unfolding a1_def a2_def by simp
  then have "\<exists>w1 w2. Update (d @ f1) (FsNode (Inr n1) rd1) w = Some w1 \<and>
        Update (d @ f2) (FsNode (Inr n2) rd2) w1 = Some w2 \<and>
        map_of (metrics w2) (label_values l1) \<noteq> None \<and>
        (\<forall>ks. ks \<noteq> label_values l1 \<longrightarrow> map_of (metrics w2) ks = map_of (metrics w) ks) \<and>
        (float64_exact (last_size w (d @ f1)) \<and> float64_exact (last_size w (d @ f2)) \<and>
         float64_exact (counter_value w (label_values l1)) \<and>
         float64_exact (counter_value w (label_values l1) + int n1 + int n2) \<longrightarrow>
         counter_value w2 (label_values l1) =
           counter_value w (label_values l1) +
           (if last_size w (d @ f1) \<le> int n1 then int n1 - last_size w (d @ f1) else int n1) +
           (if last_size w1 (d @ f2) \<le> int n2 then int n2 - last_size w1 (d @ f2) else int n2) \<and>
         float64_exact (last_size w1 (d @ f2)) \<and>
         float64_exact (counter_value w2 (label_values l1)))"
    by blast
  with eq dir show ?thesis by blast
qed

theorem labels_ignore_file_name_witness:
  "CHR ''/'' \<notin> set ''0.log'' \<and> CHR ''/'' \<notin> set ''1.log.gz'' \<and>
   Parse (''/var/log/pods/ns_pod_8cdb-f8bd/app/'' @ ''0.log'') =
     Some \<lparr>Namespace = ''ns'', Name = ''pod'', UUID = ''8cdb-f8bd'', Container = ''app''\<rparr> \<and>
   Parse (''/var/log/pods/ns_pod_8cdb-f8bd/app/'' @ ''1.log.gz'') =
     Some \<lparr>Namespace = ''ns'', Name = ''pod'', UUID = ''8cdb-f8bd'', Container = ''app''\<rparr> \<and>
   float64_exact 0 \<and> float64_exact (0 + int 8 + int 6) \<and>
   (\<exists>pre u. ''/var/log/pods/ns_pod_8cdb-f8bd/app/'' =
      pre @ container_dir \<lparr>Namespace = ''ns'', Name = ''pod'', UUID = ''8cdb-f8bd'', Container = ''app''\<rparr> @ u) \<and>
   (\<exists>w1 w2. Update (''/var/log/pods/ns_pod_8cdb-f8bd/app/'' @ ''0.log'')
                (FsNode (Inr 8) (Inl (ErrOther ''not a directory'')))
                \<lparr>metrics = [], sizes = [], logged = []\<rparr> = Some w1 \<and>
             Update (''/var/log/pods/ns_pod_8cdb-f8bd/app/'' @ ''1.log.gz'')
                (FsNode (Inr 6) (Inl (ErrOther ''not a directory''))) w1 = Some w2 \<and>
             counter_value w2 [''ns'', ''pod'', ''8cdb-f8bd'', ''app''] = 14)"
proof -
  define L where "L = \<lparr>Namespace = ''ns'', Name = ''pod'', UUID = ''8cdb-f8bd'', Container = ''app''\<rparr>"
  define W where "W = \<lparr>metrics = ([] :: CounterVec), sizes = ([] :: (string \<times> int) list),
                        logged = ([] :: log_entry list)\<rparr>"
  have p1: "Parse (''/var/log/pods/ns_pod_8cdb-f8bd/app/'' @ ''0.log'') = Some L"
    by (simp add: L_def Parse_def logFile_def word_cls_def hex_cls_def)
  have p2: "Parse (''/var/log/pods/ns_pod_8cdb-f8bd/app/'' @ ''1.log.gz'') = Some L"
    by (simp add: L_def Parse_def logFile_def word_cls_def hex_cls_def)
  have s1: "CHR ''/'' \<notin> set ''0.log''" and s2: "CHR ''/'' \<notin> set ''1.log.gz''" by simp_all
  have e: "float64_exact 0" "float64_exact (0 + int 8 + int 6)"
    by (simp_all add: float64_exact_def)
  have b: "float64_exact (last_size W (''/var/log/pods/ns_pod_8cdb-f8bd/app/'' @ ''0.log'')) \<and>
           float64_exact (last_size W (''/var/log/pods/ns_pod_8cdb-f8bd/app/'' @ ''1.log.gz'')) \<and>
           float64_exact (counter_value W (label_values L)) \<and>
           float64_exact (counter_value W (label_values L) + int 8 + int 6)"
    using e by (simp add: W_def last_size_def counter_value_def)
  from labels_ignore_file_name [OF s1 s2 p1 p2, of 8 "Inl (ErrOther ''not a directory'')" W
      6 "Inl (ErrOther ''not a directory'')"] b
  obtain w1 w2 where dir: "\<exists>pre u. ''/var/log/pods/ns_pod_8cdb-f8bd/app/'' = pre @ container_dir L @ u"
    and u1: "Update (''/var/log/pods/ns_pod_8cdb-f8bd/app/'' @ ''0.log'')
                (FsNode (Inr 8) (Inl (ErrOther ''not a directory''))) W = Some w1"
    and u2: "Update (''/var/log/pods/ns_pod_8cdb-f8bd/app/'' @ ''1.log.gz'')
                (FsNode (Inr 6) (Inl (ErrOther ''not a directory''))) w1 = Some w2"
    and c: "counter_value w2 (label_values L) =
       counter_value W (label_values L) +
       (if last_size W (''/var/log/pods/ns_pod_8cdb-f8bd/app/'' @ ''0.log'') \<le> int 8
        then int 8 - last_size W (''/var/log/pods/ns_pod_8cdb-f8bd/app/'' @ ''0.log'')
        else int 8) +
       (if last_size w1 (''/var/log/pods/ns_pod_8cdb-f8bd/app/'' @ ''1.log.gz'') \<le> int 6
        then int 6 - last_size w1 (''/var/log/pods/ns_pod_8cdb-f8bd/app/'' @ ''1.log.gz'')
        else int 6)"
    by blast
  from u1 have "last_size w1 (''/var/log/pods/ns_pod_8cdb-f8bd/app/'' @ ''1.log.gz'') = 0"
    unfolding Update_file [OF p1] by (auto simp: last_size_def W_def)
  with c have "counter_value w2 [''ns'', ''pod'', ''8cdb-f8bd'', ''app''] = 14"
    by (simp add: label_values_def counter_value_def last_size_def W_def L_def)
  with u1 u2 dir p1 p2 s1 s2 e show ?thesis unfolding W_def L_def by blast
qed

lemma log_at_intro:
  assumes "wf_labels l" "CHR 0x0A \<notin> set mid"
  shows "log_at (container_dir l @ mid @ ''.log'' @ post) l"
proof -
  from assms(2) have "has_log (mid @ ''.log'' @ post)" unfolding has_log_iff by blast
  with assms(1) show ?thesis unfolding log_at_iff by blast
qed

lemma no_earlier_match:
  assumes "wf_labels l" "CHR ''_'' \<notin> set b" "b \<noteq> []"
  shows "\<not> log_at (b @ container_dir l @ u) x"
proof
  assume "log_at (b @ container_dir l @ u) x"
  then obtain v where wfx: "wf_labels x" and v: "b @ container_dir l @ u = container_dir x @ v"
    unfolding log_at_iff by blast
  from v assms(3) obtain b' where b': "b = CHR ''/'' # b'"
    by (cases b) (auto simp: container_dir_def)
  with v have e: "(b' @ CHR ''/'' # Namespace l) @ CHR ''_'' #
        (Name l @ CHR ''_'' # UUID l @ CHR ''/'' # Container l @ CHR ''/'' # u) =
      Namespace x @ CHR ''_'' # (Name x @ CHR ''_'' # UUID x @ CHR ''/'' # Container x @ CHR ''/'' # v)"
    by (simp add: container_dir_def)
  have 1: "\<forall>c\<in>set (b' @ CHR ''/'' # Namespace l). c \<noteq> CHR ''_''"
    using assms(1,2) b' cls_rejects(1) by (auto simp: wf_labels_def list_all_iff)
  have 2: "\<forall>c\<in>set (Namespace x). c \<noteq> CHR ''_''"
    using wfx cls_rejects(1) by (auto simp: wf_labels_def list_all_iff)
  from run_unique [OF 1 2 _ _ e] have "b' @ CHR ''/'' # Namespace l = Namespace x" by simp
  then have "CHR ''/'' \<in> set (Namespace x)" by (metis in_set_conv_decomp)
  with wfx cls_rejects(2) show False by (auto simp: wf_labels_def list_all_iff)
qed

text \<open>
  C9, as amended. A path that contains the directory of a container \<open>l\<close> with well-formed
  labels, followed later by \<^verbatim>\<open>.log\<close> with no newline between the directory and the
  \<^verbatim>\<open>.log\<close>, is accepted by \<^verbatim>\<open>Parse\<close>, whatever precedes the directory, whatever lies
  between (separators included) and whatever follows. The labels are those of the leftmost
  such directory: they are the labels \<open>l\<close> when no earlier position of the path matches, and
  in particular when no underscore precedes the directory.
\<close>

theorem container_dir_substring_accepted:
  assumes "wf_labels l" "CHR 0x0A \<notin> set mid"
  shows "(\<exists>l'. Parse (pre @ container_dir l @ mid @ ''.log'' @ post) = Some l') \<and>
         ((\<forall>a b x. pre = a @ b \<and> b \<noteq> [] \<longrightarrow>
             \<not> log_at (b @ container_dir l @ mid @ ''.log'' @ post) x) \<longrightarrow>
            Parse (pre @ container_dir l @ mid @ ''.log'' @ post) = Some l) \<and>
         (CHR ''_'' \<notin> set pre \<longrightarrow>
            Parse (pre @ container_dir l @ mid @ ''.log'' @ post) = Some l)"
proof -
  note here = log_at_intro [OF assms, of post]
  have 1: "\<exists>l'. Parse (pre @ container_dir l @ mid @ ''.log'' @ post) = Some l'"
    by (rule Parse_somewhere [OF here])
  have 2: "Parse (pre @ container_dir l @ mid @ ''.log'' @ post) = Some l"
    if "\<forall>a b x. pre = a @ b \<and> b \<noteq> [] \<longrightarrow> \<not> log_at (b @ container_dir l @ mid @ ''.log'' @ post) x"
    using that by (intro Parse_leftmost [OF here]) blast
  have 3: "Parse (pre @ container_dir l @ mid @ ''.log'' @ post) = Some l"
    if "CHR ''_'' \<notin> set pre"
  proof (rule Parse_leftmost [OF here])
    fix a b x
    assume "pre = a @ b" "b \<noteq> []"
    with that have "CHR ''_'' \<notin> set b" by simp
    from no_earlier_match [OF assms(1) this \<open>b \<noteq> []\<close>]
    show "\<not> log_at (b @ container_dir l @ mid @ ''.log'' @ post) x" .
  qed
  from 1 2 3 show ?thesis by blast
qed

theorem container_dir_substring_accepted_witness:
  "wf_labels \<lparr>Namespace = ''ns'', Name = ''pod'', UUID = ''8cdb-f8bd'', Container = ''app''\<rparr> \<and>
   CHR 0x0A \<notin> set ''rotated/2021/0'' \<and> CHR ''_'' \<notin> set ''/var/log/pods/extra'' \<and>
   Parse (''/var/log/pods/extra'' @
          container_dir \<lparr>Namespace = ''ns'', Name = ''pod'', UUID = ''8cdb-f8bd'', Container = ''app''\<rparr> @
          ''rotated/2021/0'' @ ''.log'' @ ''.gz'') =
     Some \<lparr>Namespace = ''ns'', Name = ''pod'', UUID = ''8cdb-f8bd'', Container = ''app''\<rparr> \<and>
   ''/var/log/pods/extra'' @
          container_dir \<lparr>Namespace = ''ns'', Name = ''pod'', UUID = ''8cdb-f8bd'', Container = ''app''\<rparr> @
          ''rotated/2021/0'' @ ''.log'' @ ''.gz'' =
     ''/var/log/pods/extra/ns_pod_8cdb-f8bd/app/rotated/2021/0.log.gz''"
proof -
  have wf: "wf_labels \<lparr>Namespace = ''ns'', Name = ''pod'', UUID = ''8cdb-f8bd'', Container = ''app''\<rparr>"
    by (simp add: wf_labels_def word_cls_def hex_cls_def)
  have nl: "CHR 0x0A \<notin> set ''rotated/2021/0''" by simp
  have us: "CHR ''_'' \<notin> set ''/var/log/pods/extra''" by simp
  from container_dir_substring_accepted [OF wf nl, of "''/var/log/pods/extra''" "''.gz''"] us
  have "Parse (''/var/log/pods/extra'' @
          container_dir \<lparr>Namespace = ''ns'', Name = ''pod'', UUID = ''8cdb-f8bd'', Container = ''app''\<rparr> @
          ''rotated/2021/0'' @ ''.log'' @ ''.gz'') =
     Some \<lparr>Namespace = ''ns'', Name = ''pod'', UUID = ''8cdb-f8bd'', Container = ''app''\<rparr>"
    by blast
  with wf nl us show ?thesis by (simp add: container_dir_def)
qed

text \<open>
  C9 as stated fails: a newline between the directory of the container and the \<^verbatim>\<open>.log\<close>
  makes \<^verbatim>\<open>Parse\<close> reject the path (the dot of the pattern does not match a newline), and a
  path with an earlier match is accepted with the labels of the earlier match, not with
  those of the container named.
\<close>

theorem newline_or_earlier_match_counterexample:
  "wf_labels \<lparr>Namespace = ''ns'', Name = ''pod'', UUID = ''8cdb-f8bd'', Container = ''app''\<rparr> \<and>
   Parse ([] @ container_dir \<lparr>Namespace = ''ns'', Name = ''pod'', UUID = ''8cdb-f8bd'', Container = ''app''\<rparr> @
          [CHR 0x0A] @ ''.log'' @ []) = None \<and>
   Parse (''/a_b_c/d/x.log'' @
          container_dir \<lparr>Namespace = ''ns'', Name = ''pod'', UUID = ''8cdb-f8bd'', Container = ''app''\<rparr> @
          ''0'' @ ''.log'' @ []) =
     Some \<lparr>Namespace = ''a'', Name = ''b'', UUID = ''c'', Container = ''d''\<rparr>"
  by (simp add: wf_labels_def container_dir_def Parse_def logFile_def word_cls_def hex_cls_def)

section \<open>Remove\<close>

lemma Remove_step_sizes:
  "map_of (sizes (fold (Remove_key p) ks w)) k =
   (if k \<in> set ks \<and> prefix p k then None else map_of (sizes w) k)"
proof (induction ks arbitrary: w)
  case Nil
  show ?case by simp
next
  case (Cons a ks)
  show ?case
    by (simp add: Cons.IH)
      (simp add: Remove_key_def filepath_HasPrefix_def Let_def delete_conv' split: option.split)
qed

lemma Remove_step_metrics:
  "map_of (metrics (fold (Remove_key p) ks w)) lvs =
   (if \<exists>k\<in>set ks. prefix p k \<and> map_option label_values (Parse k) = Some lvs then None
    else map_of (metrics w) lvs)"
proof (induction ks arbitrary: w)
  case Nil
  show ?case by simp
next
  case (Cons a ks)
  show ?case
    by (simp add: Cons.IH)
      (auto simp: Remove_key_def filepath_HasPrefix_def Let_def delete_conv' DeleteLabelValues_def
        label_values_def split: option.split)
qed

lemma Remove_step_logged: "logged (fold (Remove_key p) ks w) = logged w"
proof (induction ks arbitrary: w)
  case Nil
  show ?case by simp
next
  case (Cons a ks)
  show ?case
    by (simp add: Cons.IH) (simp add: Remove_key_def Let_def split: option.split)
qed

lemma Remove_sizes:
  "FindStringSubmatch logPodDir p \<noteq> None \<Longrightarrow>
   map_of (sizes (Remove p w)) k = (if prefix p k then None else map_of (sizes w) k)"
  unfolding Remove_def
  by (simp add: Remove_step_sizes) (metis map_of_eq_None_iff)

lemma Remove_metrics:
  "FindStringSubmatch logPodDir p \<noteq> None \<Longrightarrow>
   map_of (metrics (Remove p w)) lvs =
     (if \<exists>k\<in>fst ` set (sizes w). prefix p k \<and> map_option label_values (Parse k) = Some lvs
      then None else map_of (metrics w) lvs)"
  unfolding Remove_def by (simp add: Remove_step_metrics)

lemma Remove_logged: "logged (Remove p w) = logged w"
  unfolding Remove_def by (simp add: Remove_step_logged)

lemma Remove_not_pod_dir: "FindStringSubmatch logPodDir p = None \<Longrightarrow> Remove p w = w"
  by (simp add: Remove_def)

lemma FindStringSubmatch_Some_D:
  "FindStringSubmatch re s \<noteq> None \<Longrightarrow> \<exists>pre t. s = pre @ t \<and> rmatch re t \<noteq> []"
proof (induction s)
  case Nil
  then show ?case by (auto split: list.splits)
next
  case (Cons c cs)
  show ?case
  proof (cases "rmatch re (c # cs) = []")
    case True
    with Cons obtain pre t where "cs = pre @ t" "rmatch re t \<noteq> []" by auto
    then have "c # cs = (c # pre) @ t \<and> rmatch re t \<noteq> []" by simp
    then show ?thesis by blast
  next
    case False
    then have "c # cs = [] @ (c # cs) \<and> rmatch re (c # cs) \<noteq> []" by simp
    then show ?thesis by blast
  qed
qed

lemma logPodDir_matches:
  "rmatch logPodDir t \<noteq> [] \<longleftrightarrow>
     (\<exists>x1 x2 x3.
        x1 \<noteq> [] \<and> (\<forall>c\<in>set x1. accepts word_cls c) \<and>
        x2 \<noteq> [] \<and> (\<forall>c\<in>set x2. accepts word_cls c) \<and>
        x3 \<noteq> [] \<and> (\<forall>c\<in>set x3. accepts hex_cls c) \<and>
        t = CHR ''/'' # x1 @ CHR ''_'' # x2 @ CHR ''_'' # x3)"
  unfolding rmatch_nonempty logPodDir_pod_then pod_then_yields yields_Eot
  by (simp; blast)

lemma log_file_not_pod_dir:
  assumes "suffix ''.log'' path"
  shows "FindStringSubmatch logPodDir path = None"
proof (rule ccontr)
  assume "FindStringSubmatch logPodDir path \<noteq> None"
  from FindStringSubmatch_Some_D [OF this] obtain pre t where t: "path = pre @ t"
    "rmatch logPodDir t \<noteq> []" by blast
  then obtain x1 x2 x3 where x: "x3 \<noteq> []" "\<forall>c\<in>set x3. accepts hex_cls c"
    "t = CHR ''/'' # x1 @ CHR ''_'' # x2 @ CHR ''_'' # x3"
    unfolding logPodDir_matches by blast
  from x(1,3) t(1) have "last path = last x3" by simp
  moreover from assms have "last path = CHR ''g''" by (auto simp: suffix_def)
  ultimately have "accepts hex_cls CHR ''g''" using x(1,2) last_in_set by metis
  then show False by (simp add: hex_cls_def)
qed

text \<open>
  C4. \<^verbatim>\<open>Remove\<close> changes nothing when the path does not match the pattern of a pod
  directory; a path that ends in \<^verbatim>\<open>.log\<close> never matches it. When the path matches, the
  size of a key is absent afterwards when the key has the path as a prefix, and is as before
  otherwise; a series is absent afterwards when its label values are those of a stored key
  that has the path as a prefix (so the series of every such key is absent), and is as
  before otherwise; the log is as before.
\<close>

theorem Remove_cleans_pod_dir_only:
  "(FindStringSubmatch logPodDir path = None \<longrightarrow> Remove path w = w) \<and>
   (suffix ''.log'' path \<longrightarrow> Remove path w = w) \<and>
   (FindStringSubmatch logPodDir path \<noteq> None \<longrightarrow>
      (\<forall>k. map_of (sizes (Remove path w)) k =
            (if prefix path k then None else map_of (sizes w) k)) \<and>
      (\<forall>lvs. map_of (metrics (Remove path w)) lvs =
            (if \<exists>k\<in>fst ` set (sizes w). prefix path k \<and>
                  map_option label_values (Parse k) = Some lvs
             then None else map_of (metrics w) lvs)) \<and>
      (\<forall>k l. map_of (sizes w) k \<noteq> None \<and> prefix path k \<and> Parse k = Some l \<longrightarrow>
         map_of (metrics (Remove path w)) (label_values l) = None) \<and>
      logged (Remove path w) = logged w)"
proof -
  have "map_of (metrics (Remove path w)) (label_values l) = None"
    if pod: "FindStringSubmatch logPodDir path \<noteq> None"
      and k: "map_of (sizes w) k \<noteq> None" "prefix path k" "Parse k = Some l" for k l
  proof -
    from k(1) have "k \<in> fst ` set (sizes w)" by (simp add: map_of_eq_None_iff)
    with k(2,3) have "\<exists>k\<in>fst ` set (sizes w). prefix path k \<and>
        map_option label_values (Parse k) = Some (label_values l)"
      by force
    then show ?thesis unfolding Remove_metrics [OF pod] by simp
  qed
  note absent = this
  have np: "FindStringSubmatch logPodDir path = None \<longrightarrow> Remove path w = w"
    using Remove_not_pod_dir by blast
  have lg: "suffix ''.log'' path \<longrightarrow> Remove path w = w"
    using Remove_not_pod_dir log_file_not_pod_dir by blast
  have pd: "(\<forall>k. map_of (sizes (Remove path w)) k =
            (if prefix path k then None else map_of (sizes w) k)) \<and>
      (\<forall>lvs. map_of (metrics (Remove path w)) lvs =
            (if \<exists>k\<in>fst ` set (sizes w). prefix path k \<and>
                  map_option label_values (Parse k) = Some lvs
             then None else map_of (metrics w) lvs)) \<and>
      (\<forall>k l. map_of (sizes w) k \<noteq> None \<and> prefix path k \<and> Parse k = Some l \<longrightarrow>
         map_of (metrics (Remove path w)) (label_values l) = None) \<and>
      logged (Remove path w) = logged w"
    if pod: "FindStringSubmatch logPodDir path \<noteq> None"
  proof -
    have 1: "\<forall>k. map_of (sizes (Remove path w)) k =
            (if prefix path k then None else map_of (sizes w) k)"
      using Remove_sizes [OF pod] by blast
    have 2: "\<forall>lvs. map_of (metrics (Remove path w)) lvs =
            (if \<exists>k\<in>fst ` set (sizes w). prefix path k \<and>
                  map_option label_values (Parse k) = Some lvs
             then None else map_of (metrics w) lvs)"
      using Remove_metrics [OF pod] by blast
    have 3: "\<forall>k l. map_of (sizes w) k \<noteq> None \<and> prefix path k \<and> Parse k = Some l \<longrightarrow>
         map_of (metrics (Remove path w)) (label_values l) = None"
      using absent [OF pod] by blast
    from 1 2 3 Remove_logged [of path w] show ?thesis by blast
  qed
  from np lg pd show ?thesis by blast
qed

theorem Remove_cleans_pod_dir_only_witness:
  "FindStringSubmatch logPodDir ''/var/log/pods/ns_pod_8cdb-f8bd'' \<noteq> None \<and>
   prefix ''/var/log/pods/ns_pod_8cdb-f8bd'' ''/var/log/pods/ns_pod_8cdb-f8bd/app/0.log'' \<and>
   Parse ''/var/log/pods/ns_pod_8cdb-f8bd/app/0.log'' =
     Some \<lparr>Namespace = ''ns'', Name = ''pod'', UUID = ''8cdb-f8bd'', Container = ''app''\<rparr> \<and>
   map_of (sizes (Remove ''/var/log/pods/ns_pod_8cdb-f8bd''
      \<lparr>metrics = [([''ns'', ''pod'', ''8cdb-f8bd'', ''app''], 20), ([''x'', ''y'', ''0'', ''z''], 9)],
        sizes = [(''/var/log/pods/ns_pod_8cdb-f8bd/app/0.log'', 14),
                 (''/var/log/pods/ns_pod_8cdb-f8bd/app/1.log'', 6),
                 (''/var/log/pods/x_y_0/z/0.log'', 9)], logged = []\<rparr>))
     ''/var/log/pods/ns_pod_8cdb-f8bd/app/0.log'' = None \<and>
   map_of (metrics (Remove ''/var/log/pods/ns_pod_8cdb-f8bd''
      \<lparr>metrics = [([''ns'', ''pod'', ''8cdb-f8bd'', ''app''], 20), ([''x'', ''y'', ''0'', ''z''], 9)],
        sizes = [(''/var/log/pods/ns_pod_8cdb-f8bd/app/0.log'', 14),
                 (''/var/log/pods/ns_pod_8cdb-f8bd/app/1.log'', 6),
                 (''/var/log/pods/x_y_0/z/0.log'', 9)], logged = []\<rparr>))
     [''ns'', ''pod'', ''8cdb-f8bd'', ''app''] = None \<and>
   map_of (sizes (Remove ''/var/log/pods/ns_pod_8cdb-f8bd''
      \<lparr>metrics = [([''ns'', ''pod'', ''8cdb-f8bd'', ''app''], 20), ([''x'', ''y'', ''0'', ''z''], 9)],
        sizes = [(''/var/log/pods/ns_pod_8cdb-f8bd/app/0.log'', 14),
                 (''/var/log/pods/ns_pod_8cdb-f8bd/app/1.log'', 6),
                 (''/var/log/pods/x_y_0/z/0.log'', 9)], logged = []\<rparr>))
     ''/var/log/pods/x_y_0/z/0.log'' = Some 9 \<and>
   map_of (metrics (Remove ''/var/log/pods/ns_pod_8cdb-f8bd''
      \<lparr>metrics = [([''ns'', ''pod'', ''8cdb-f8bd'', ''app''], 20), ([''x'', ''y'', ''0'', ''z''], 9)],
        sizes = [(''/var/log/pods/ns_pod_8cdb-f8bd/app/0.log'', 14),
                 (''/var/log/pods/ns_pod_8cdb-f8bd/app/1.log'', 6),
                 (''/var/log/pods/x_y_0/z/0.log'', 9)], logged = []\<rparr>))
     [''x'', ''y'', ''0'', ''z''] = Some 9 \<and>
   suffix ''.log'' ''/var/log/pods/ns_pod_8cdb-f8bd/app/0.log'' \<and>
   Remove ''/var/log/pods/ns_pod_8cdb-f8bd/app/0.log''
      \<lparr>metrics = [([''ns'', ''pod'', ''8cdb-f8bd'', ''app''], 20), ([''x'', ''y'', ''0'', ''z''], 9)],
        sizes = [(''/var/log/pods/ns_pod_8cdb-f8bd/app/0.log'', 14),
                 (''/var/log/pods/ns_pod_8cdb-f8bd/app/1.log'', 6),
                 (''/var/log/pods/x_y_0/z/0.log'', 9)], logged = []\<rparr> =
      \<lparr>metrics = [([''ns'', ''pod'', ''8cdb-f8bd'', ''app''], 20), ([''x'', ''y'', ''0'', ''z''], 9)],
        sizes = [(''/var/log/pods/ns_pod_8cdb-f8bd/app/0.log'', 14),
                 (''/var/log/pods/ns_pod_8cdb-f8bd/app/1.log'', 6),
                 (''/var/log/pods/x_y_0/z/0.log'', 9)], logged = []\<rparr>"
proof -
  define W where "W = \<lparr>metrics = [([''ns'', ''pod'', ''8cdb-f8bd'', ''app''], (20::int)),
                              ([''x'', ''y'', ''0'', ''z''], 9)],
        sizes = [(''/var/log/pods/ns_pod_8cdb-f8bd/app/0.log'', (14::int)),
                 (''/var/log/pods/ns_pod_8cdb-f8bd/app/1.log'', 6),
                 (''/var/log/pods/x_y_0/z/0.log'', 9)], logged = ([]::log_entry list)\<rparr>"
  have pod: "FindStringSubmatch logPodDir ''/var/log/pods/ns_pod_8cdb-f8bd'' \<noteq> None"
    by (simp add: logPodDir_def word_cls_def hex_cls_def)
  have pre: "prefix ''/var/log/pods/ns_pod_8cdb-f8bd'' ''/var/log/pods/ns_pod_8cdb-f8bd/app/0.log''"
    by simp
  have p0: "Parse ''/var/log/pods/ns_pod_8cdb-f8bd/app/0.log'' =
     Some \<lparr>Namespace = ''ns'', Name = ''pod'', UUID = ''8cdb-f8bd'', Container = ''app''\<rparr>"
    and p1: "Parse ''/var/log/pods/ns_pod_8cdb-f8bd/app/1.log'' =
     Some \<lparr>Namespace = ''ns'', Name = ''pod'', UUID = ''8cdb-f8bd'', Container = ''app''\<rparr>"
    and p2: "Parse ''/var/log/pods/x_y_0/z/0.log'' =
     Some \<lparr>Namespace = ''x'', Name = ''y'', UUID = ''0'', Container = ''z''\<rparr>"
    by (simp_all add: Parse_def logFile_def word_cls_def hex_cls_def)
  have suf: "suffix ''.log'' ''/var/log/pods/ns_pod_8cdb-f8bd/app/0.log''"
    by (simp add: suffix_to_prefix)
  from Remove_cleans_pod_dir_only [of "''/var/log/pods/ns_pod_8cdb-f8bd''" W] pod
  have sz: "\<forall>k. map_of (sizes (Remove ''/var/log/pods/ns_pod_8cdb-f8bd'' W)) k =
            (if prefix ''/var/log/pods/ns_pod_8cdb-f8bd'' k then None else map_of (sizes W) k)"
    and ms: "\<forall>lvs. map_of (metrics (Remove ''/var/log/pods/ns_pod_8cdb-f8bd'' W)) lvs =
            (if \<exists>k\<in>fst ` set (sizes W). prefix ''/var/log/pods/ns_pod_8cdb-f8bd'' k \<and>
                  map_option label_values (Parse k) = Some lvs
             then None else map_of (metrics W) lvs)"
    by blast+
  have 1: "map_of (sizes (Remove ''/var/log/pods/ns_pod_8cdb-f8bd'' W))
             ''/var/log/pods/ns_pod_8cdb-f8bd/app/0.log'' = None"
    and 3: "map_of (sizes (Remove ''/var/log/pods/ns_pod_8cdb-f8bd'' W))
             ''/var/log/pods/x_y_0/z/0.log'' = Some 9"
    unfolding sz [rule_format] by (simp_all add: W_def)
  have 2: "map_of (metrics (Remove ''/var/log/pods/ns_pod_8cdb-f8bd'' W))
             [''ns'', ''pod'', ''8cdb-f8bd'', ''app''] = None"
    and 4: "map_of (metrics (Remove ''/var/log/pods/ns_pod_8cdb-f8bd'' W))
             [''x'', ''y'', ''0'', ''z''] = Some 9"
    unfolding ms [rule_format] by (simp_all add: W_def p0 p1 p2 label_values_def)
  from Remove_cleans_pod_dir_only [of "''/var/log/pods/ns_pod_8cdb-f8bd/app/0.log''" W] suf
  have 5: "Remove ''/var/log/pods/ns_pod_8cdb-f8bd/app/0.log'' W = W"
    by blast
  from pod pre p0 suf 1 2 3 4 5 show ?thesis unfolding W_def by blast
qed

text \<open>
  C10. The prefix test of \<^verbatim>\<open>Remove\<close> is the prefix of strings. For a pod directory \<open>p\<close>,
  the size stored for a key \<open>k\<close> after \<^verbatim>\<open>Remove\<close> is absent when \<open>k\<close> is \<open>p\<close> followed by any
  string, and as before otherwise; a series is absent when its label values are those of a
  stored key that is \<open>p\<close> followed by any string, and as before otherwise; the log is as
  before. A key under a sibling directory whose name extends the last segment of \<open>p\<close> is
  such a key.
\<close>

theorem Remove_prefix_is_lexical:
  assumes "FindStringSubmatch logPodDir p \<noteq> None"
  shows "filepath_HasPrefix k p = (\<exists>s. k = p @ s) \<and>
         map_of (sizes (Remove p w)) k = (if \<exists>s. k = p @ s then None else map_of (sizes w) k) \<and>
         map_of (metrics (Remove p w)) lvs =
           (if \<exists>k\<in>fst ` set (sizes w). (\<exists>s. k = p @ s) \<and>
                 map_option label_values (Parse k) = Some lvs
            then None else map_of (metrics w) lvs) \<and>
         logged (Remove p w) = logged w"
  using Remove_sizes [OF assms] Remove_metrics [OF assms] Remove_logged
  by (simp add: filepath_HasPrefix_def prefix_def)

theorem Remove_prefix_is_lexical_witness:
  "FindStringSubmatch logPodDir ''/var/log/pods/a_b_c'' \<noteq> None \<and>
   map_of (sizes (Remove ''/var/log/pods/a_b_c''
      \<lparr>metrics = [([''a'', ''b'', ''c'', ''d''], 5), ([''a'', ''b'', ''cd'', ''e''], 7),
                   ([''x'', ''y'', ''0'', ''z''], 9)],
         sizes = [(''/var/log/pods/a_b_c/d/0.log'', 5), (''/var/log/pods/a_b_cd/e/0.log'', 7),
                  (''/var/log/pods/x_y_0/z/0.log'', 9)],
         logged = []\<rparr>)) ''/var/log/pods/a_b_cd/e/0.log'' = None \<and>
   map_of (metrics (Remove ''/var/log/pods/a_b_c''
      \<lparr>metrics = [([''a'', ''b'', ''c'', ''d''], 5), ([''a'', ''b'', ''cd'', ''e''], 7),
                   ([''x'', ''y'', ''0'', ''z''], 9)],
         sizes = [(''/var/log/pods/a_b_c/d/0.log'', 5), (''/var/log/pods/a_b_cd/e/0.log'', 7),
                  (''/var/log/pods/x_y_0/z/0.log'', 9)],
         logged = []\<rparr>)) [''a'', ''b'', ''cd'', ''e''] = None \<and>
   map_of (sizes (Remove ''/var/log/pods/a_b_c''
      \<lparr>metrics = [([''a'', ''b'', ''c'', ''d''], 5), ([''a'', ''b'', ''cd'', ''e''], 7),
                   ([''x'', ''y'', ''0'', ''z''], 9)],
         sizes = [(''/var/log/pods/a_b_c/d/0.log'', 5), (''/var/log/pods/a_b_cd/e/0.log'', 7),
                  (''/var/log/pods/x_y_0/z/0.log'', 9)],
         logged = []\<rparr>)) ''/var/log/pods/x_y_0/z/0.log'' = Some 9 \<and>
   map_of (metrics (Remove ''/var/log/pods/a_b_c''
      \<lparr>metrics = [([''a'', ''b'', ''c'', ''d''], 5), ([''a'', ''b'', ''cd'', ''e''], 7),
                   ([''x'', ''y'', ''0'', ''z''], 9)],
         sizes = [(''/var/log/pods/a_b_c/d/0.log'', 5), (''/var/log/pods/a_b_cd/e/0.log'', 7),
                  (''/var/log/pods/x_y_0/z/0.log'', 9)],
         logged = []\<rparr>)) [''x'', ''y'', ''0'', ''z''] = Some 9"
proof -
  have pod: "FindStringSubmatch logPodDir ''/var/log/pods/a_b_c'' \<noteq> None"
    by (simp add: logPodDir_def word_cls_def hex_cls_def)
  have p1: "Parse ''/var/log/pods/a_b_c/d/0.log'' =
      Some \<lparr>Namespace = ''a'', Name = ''b'', UUID = ''c'', Container = ''d''\<rparr>"
    and p2: "Parse ''/var/log/pods/a_b_cd/e/0.log'' =
      Some \<lparr>Namespace = ''a'', Name = ''b'', UUID = ''cd'', Container = ''e''\<rparr>"
    and p3: "Parse ''/var/log/pods/x_y_0/z/0.log'' =
      Some \<lparr>Namespace = ''x'', Name = ''y'', UUID = ''0'', Container = ''z''\<rparr>"
    by (simp_all add: Parse_def logFile_def word_cls_def hex_cls_def)
  have "map_of (sizes (Remove ''/var/log/pods/a_b_c''
      \<lparr>metrics = [([''a'', ''b'', ''c'', ''d''], 5), ([''a'', ''b'', ''cd'', ''e''], 7),
                   ([''x'', ''y'', ''0'', ''z''], 9)],
         sizes = [(''/var/log/pods/a_b_c/d/0.log'', 5), (''/var/log/pods/a_b_cd/e/0.log'', 7),
                  (''/var/log/pods/x_y_0/z/0.log'', 9)],
         logged = []\<rparr>)) ''/var/log/pods/a_b_cd/e/0.log'' = None \<and>
   map_of (metrics (Remove ''/var/log/pods/a_b_c''
      \<lparr>metrics = [([''a'', ''b'', ''c'', ''d''], 5), ([''a'', ''b'', ''cd'', ''e''], 7),
                   ([''x'', ''y'', ''0'', ''z''], 9)],
         sizes = [(''/var/log/pods/a_b_c/d/0.log'', 5), (''/var/log/pods/a_b_cd/e/0.log'', 7),
                  (''/var/log/pods/x_y_0/z/0.log'', 9)],
         logged = []\<rparr>)) [''a'', ''b'', ''cd'', ''e''] = None \<and>
   map_of (sizes (Remove ''/var/log/pods/a_b_c''
      \<lparr>metrics = [([''a'', ''b'', ''c'', ''d''], 5), ([''a'', ''b'', ''cd'', ''e''], 7),
                   ([''x'', ''y'', ''0'', ''z''], 9)],
         sizes = [(''/var/log/pods/a_b_c/d/0.log'', 5), (''/var/log/pods/a_b_cd/e/0.log'', 7),
                  (''/var/log/pods/x_y_0/z/0.log'', 9)],
         logged = []\<rparr>)) ''/var/log/pods/x_y_0/z/0.log'' = Some 9 \<and>
   map_of (metrics (Remove ''/var/log/pods/a_b_c''
      \<lparr>metrics = [([''a'', ''b'', ''c'', ''d''], 5), ([''a'', ''b'', ''cd'', ''e''], 7),
                   ([''x'', ''y'', ''0'', ''z''], 9)],
         sizes = [(''/var/log/pods/a_b_c/d/0.log'', 5), (''/var/log/pods/a_b_cd/e/0.log'', 7),
                  (''/var/log/pods/x_y_0/z/0.log'', 9)],
         logged = []\<rparr>)) [''x'', ''y'', ''0'', ''z''] = Some 9"
    using Remove_prefix_is_lexical [OF pod, of "''/var/log/pods/a_b_cd/e/0.log''"
      "\<lparr>metrics = [([''a'', ''b'', ''c'', ''d''], 5), ([''a'', ''b'', ''cd'', ''e''], 7),
                   ([''x'', ''y'', ''0'', ''z''], 9)],
         sizes = [(''/var/log/pods/a_b_c/d/0.log'', 5), (''/var/log/pods/a_b_cd/e/0.log'', 7),
                  (''/var/log/pods/x_y_0/z/0.log'', 9)],
         logged = []\<rparr>" "[''a'', ''b'', ''cd'', ''e'']"]
      Remove_prefix_is_lexical [OF pod, of "''/var/log/pods/x_y_0/z/0.log''"
      "\<lparr>metrics = [([''a'', ''b'', ''c'', ''d''], 5), ([''a'', ''b'', ''cd'', ''e''], 7),
                   ([''x'', ''y'', ''0'', ''z''], 9)],
         sizes = [(''/var/log/pods/a_b_c/d/0.log'', 5), (''/var/log/pods/a_b_cd/e/0.log'', 7),
                  (''/var/log/pods/x_y_0/z/0.log'', 9)],
         logged = []\<rparr>" "[''x'', ''y'', ''0'', ''z'']"]
    by (simp add: p1 p2 p3 label_values_def)
  with pod show ?thesis by blast
qed

section \<open>A replaced symlink target\<close>

text \<open>
  C8. When an event arrives for a registered target whose link now resolves to the same
  target path with a file of another identity, the translation emits one event, a Chmod
  with the name of the link, and registers the new file: a later Write event for the target
  is forwarded as a Write on the link. Chmod is neither Create nor Remove.
\<close>

theorem replaced_target_emits_Chmod:
  assumes "map_of (targets sw) target = Some (link, old)"
    and "resolve link = Some (target, new)" and "new \<noteq> old"
  shows "\<exists>sw'. translate resolve \<lparr>EvName = target, EvOp = op\<rparr> sw =
                 (sw', [\<lparr>EvName = link, EvOp = fsnotify_Chmod\<rparr>]) \<and>
               map_of (targets sw') target = Some (link, new) \<and>
               translate resolve \<lparr>EvName = target, EvOp = fsnotify_Write\<rparr> sw' =
                 (sw', [\<lparr>EvName = link, EvOp = fsnotify_Write\<rparr>]) \<and>
               fsnotify_Chmod \<noteq> fsnotify_Create \<and> fsnotify_Chmod \<noteq> fsnotify_Remove"
  using assms
  by (simp add: translate_def update_conv' fsnotify_Chmod_def fsnotify_Create_def
      fsnotify_Remove_def)

theorem replaced_target_emits_Chmod_witness:
  "map_of (targets \<lparr>targets = [(''/root/targets/log'', ''/root/logs/log'', 11)]\<rparr>) ''/root/targets/log'' =
     Some (''/root/logs/log'', 11) \<and>
   (\<lambda>l. if l = ''/root/logs/log'' then Some (''/root/targets/log'', 12) else None) ''/root/logs/log'' =
     Some (''/root/targets/log'', 12::nat) \<and> (12::nat) \<noteq> 11 \<and>
   translate (\<lambda>l. if l = ''/root/logs/log'' then Some (''/root/targets/log'', 12) else None)
     \<lparr>EvName = ''/root/targets/log'', EvOp = fsnotify_Remove\<rparr>
     \<lparr>targets = [(''/root/targets/log'', ''/root/logs/log'', 11)]\<rparr> =
   (\<lparr>targets = [(''/root/targets/log'', ''/root/logs/log'', 12)]\<rparr>,
    [\<lparr>EvName = ''/root/logs/log'', EvOp = fsnotify_Chmod\<rparr>])"
proof -
  have a: "map_of (targets \<lparr>targets = [(''/root/targets/log'', ''/root/logs/log'', 11)]\<rparr>) ''/root/targets/log'' =
     Some (''/root/logs/log'', 11)" by simp
  have b: "(\<lambda>l. if l = ''/root/logs/log'' then Some (''/root/targets/log'', 12) else None) ''/root/logs/log'' =
     Some (''/root/targets/log'', 12::nat)" by simp
  have c: "(12::nat) \<noteq> 11" by simp
  have d: "translate (\<lambda>l. if l = ''/root/logs/log'' then Some (''/root/targets/log'', 12) else None)
     \<lparr>EvName = ''/root/targets/log'', EvOp = fsnotify_Remove\<rparr>
     \<lparr>targets = [(''/root/targets/log'', ''/root/logs/log'', 11)]\<rparr> =
   (\<lparr>targets = [(''/root/targets/log'', ''/root/logs/log'', 12)]\<rparr>,
    [\<lparr>EvName = ''/root/logs/log'', EvOp = fsnotify_Chmod\<rparr>])"
    by (simp add: translate_def)
  from replaced_target_emits_Chmod
    [of "\<lparr>targets = [(''/root/targets/log'', ''/root/logs/log'', 11)]\<rparr>"
        "''/root/targets/log''" "''/root/logs/log''" 11
        "\<lambda>l. if l = ''/root/logs/log'' then Some (''/root/targets/log'', 12) else None" 12
        fsnotify_Remove, OF a b c] a b c d
  show ?thesis by blast
qed

end
